theory Spec2Isabelle
  imports Main
begin

section \<open>Text: characters, trimming, splitting\<close>

text \<open>
  Python strings are modelled as \<^typ>\<open>string\<close>: a character is a code point below 256.
  Within that range the whitespace of \<^verbatim>\<open>str.strip()\<close> and of the regular expression class
  \<^verbatim>\<open>\s\<close> is the set below, the class \<^verbatim>\<open>\d\<close> is the ten ASCII digits, and lower-casing an
  ASCII letter is the only case folding that can make a character equal to an ASCII letter.
\<close>

definition isspace :: "char \<Rightarrow> bool" where
  "isspace c = (c \<in> set [CHR 0x09, CHR 0x0A, CHR 0x0B, CHR 0x0C, CHR 0x0D, CHR 0x1C, CHR 0x1D,
                          CHR 0x1E, CHR 0x1F, CHR '' '', CHR 0x85, CHR 0xA0])"

definition isdigit :: "char \<Rightarrow> bool" where
  "isdigit c = (c \<in> set ''0123456789'')"

definition lower_chr :: "char \<Rightarrow> char" where
  "lower_chr c =
     (case map_of (zip ''ABCDEFGHIJKLMNOPQRSTUVWXYZ'' ''abcdefghijklmnopqrstuvwxyz'') c of
        Some l \<Rightarrow> l
      | None \<Rightarrow> c)"

definition lower :: "string \<Rightarrow> string" where
  "lower s = map lower_chr s"

text \<open>\<^verbatim>\<open>s.strip()\<close>: whitespace removed at both ends.\<close>

definition strip :: "string \<Rightarrow> string" where
  "strip s = rev (dropWhile isspace (rev (dropWhile isspace s)))"

text \<open>\<^verbatim>\<open>s.split("-")\<close>: cut at every hyphen; \<open>n\<close> hyphens give \<open>n + 1\<close> parts.\<close>

fun split_on :: "char \<Rightarrow> string \<Rightarrow> string list" where
  "split_on sep [] = [[]]"
| "split_on sep (c # cs) =
     (case split_on sep cs of
        [] \<Rightarrow> [[c]]
      | p # ps \<Rightarrow> if c = sep then [] # p # ps else (c # p) # ps)"

text \<open>\<^verbatim>\<open>sub in s\<close>: substring test.\<close>

fun contains :: "string \<Rightarrow> string \<Rightarrow> bool" where
  "contains sub [] = (sub = [])"
| "contains sub (c # cs) = (take (length sub) (c # cs) = sub \<or> contains sub cs)"

text \<open>
  \<^verbatim>\<open>int(text)\<close> on a run of decimal digits (surrounding whitespace is ignored by Python).
  CPython refuses a text of more than 4300 digits, leading zeros counted, with
  \<^verbatim>\<open>ValueError\<close> (here \<open>None\<close>).
\<close>

definition digit_val :: "char \<Rightarrow> int" where
  "digit_val c = (case map_of (zip ''0123456789'' [0, 1, 2, 3, 4, 5, 6, 7, 8, 9]) c of
                    Some n \<Rightarrow> n
                  | None \<Rightarrow> 0)"

definition int_max_str_digits :: int where
  "int_max_str_digits = 4300"

definition py_int :: "string \<Rightarrow> int option" where
  "py_int s =
     (if int_max_str_digits < int (length (strip s)) then None
      else Some (foldl (\<lambda>a c. 10 * a + digit_val c) 0 (strip s)))"

section \<open>The regular expressions the program uses\<close>

text \<open>
  The program searches the model reply with \<^verbatim>\<open>re.search\<close>, and \<^verbatim>\<open>datetime.strptime\<close>
  compiles each format into a regular expression. Both are backtracking matches; the
  fragment needed has single characters of a class, greedy repetition of a class, sequence,
  ordered alternation and capture groups. A match is computed as the list of all ways the
  expression can consume a prefix of the text, in the order in which a backtracking matcher
  tries them; the matcher's answer is the head of that list.
\<close>

datatype regex =
    Eps
  | Chr "char \<Rightarrow> bool"
  | Star "char \<Rightarrow> bool"
  | Plus "char \<Rightarrow> bool"
  | Seq regex regex
  | Alt regex regex
  | Grp string regex

type_synonym groups = "(string \<times> string) list"

text \<open>All ways of taking a run of class characters off the front, longest first (greedy).\<close>

fun runs :: "(char \<Rightarrow> bool) \<Rightarrow> string \<Rightarrow> (string \<times> string) list" where
  "runs P [] = [([], [])]"
| "runs P (c # cs) =
     (if P c then map (\<lambda>(p, r). (c # p, r)) (runs P cs) else []) @ [([], c # cs)]"

fun rmatch :: "regex \<Rightarrow> string \<Rightarrow> (groups \<times> string) list" where
  "rmatch Eps s = [([], s)]"
| "rmatch (Chr P) s = (case s of [] \<Rightarrow> [] | c # cs \<Rightarrow> if P c then [([], cs)] else [])"
| "rmatch (Star P) s = map (\<lambda>(p, r). ([], r)) (runs P s)"
| "rmatch (Plus P) s = map (\<lambda>(p, r). ([], r)) (filter (\<lambda>(p, r). p \<noteq> []) (runs P s))"
| "rmatch (Seq a b) s =
     concat (map (\<lambda>(g1, r1). map (\<lambda>(g2, r2). (g1 @ g2, r2)) (rmatch b r1)) (rmatch a s))"
| "rmatch (Alt a b) s = rmatch a s @ rmatch b s"
| "rmatch (Grp n a) s =
     map (\<lambda>(g, r). (g @ [(n, take (length s - length r) s)], r)) (rmatch a s)"

text \<open>\<^verbatim>\<open>pattern.match(s)\<close>: the first way to match at the start; the rest is what is left.\<close>

definition re_match :: "regex \<Rightarrow> string \<Rightarrow> (groups \<times> string) option" where
  "re_match r s = (case rmatch r s of [] \<Rightarrow> None | m # _ \<Rightarrow> Some m)"

text \<open>\<^verbatim>\<open>re.search(pattern, s)\<close>: the first match at the leftmost position that has one.\<close>

fun re_search :: "regex \<Rightarrow> string \<Rightarrow> (groups \<times> string) option" where
  "re_search r [] = re_match r []"
| "re_search r (c # cs) =
     (case re_match r (c # cs) of Some m \<Rightarrow> Some m | None \<Rightarrow> re_search r cs)"

text \<open>A literal text, and a literal matched under \<^verbatim>\<open>re.IGNORECASE\<close>.\<close>

fun lit :: "string \<Rightarrow> regex" where
  "lit [] = Eps"
| "lit (c # cs) = Seq (Chr (\<lambda>x. x = c)) (lit cs)"

fun ilit :: "string \<Rightarrow> regex" where
  "ilit [] = Eps"
| "ilit (c # cs) = Seq (Chr (\<lambda>x. lower_chr x = lower_chr c)) (ilit cs)"

text \<open>An ordered alternation \<^verbatim>\<open>a|b|c\<close>.\<close>

fun alts :: "regex list \<Rightarrow> regex" where
  "alts [] = Chr (\<lambda>x. False)"
| "alts [r] = r"
| "alts (r # rs) = Alt r (alts rs)"

text \<open>\<^verbatim>\<open>match.group(1)\<close> of a pattern with one group.\<close>

definition group1 :: "(groups \<times> string) \<Rightarrow> string" where
  "group1 m = (case map_of (fst m) ''1'' of Some t \<Rightarrow> t | None \<Rightarrow> [])"

text \<open>Any character but a newline: the regular expression dot.\<close>

definition dot :: "char \<Rightarrow> bool" where
  "dot c = (c \<noteq> CHR 0x0A)"

text \<open>\<^verbatim>\<open>Label:\s*(.+)\<close> and \<^verbatim>\<open>Label:\s*(\d+)\<close>.\<close>

definition label_text :: "string \<Rightarrow> regex" where
  "label_text l = Seq (lit l) (Seq (Star isspace) (Grp ''1'' (Plus dot)))"

definition label_digits :: "string \<Rightarrow> regex" where
  "label_digits l = Seq (lit l) (Seq (Star isspace) (Grp ''1'' (Plus isdigit)))"

section \<open>Calendar dates and times\<close>

text \<open>
  A \<^verbatim>\<open>datetime\<close> value carries its fields; the constructor and \<^verbatim>\<open>replace\<close> raise
  \<^verbatim>\<open>ValueError\<close> (here \<open>None\<close>) when the fields are out of range.
\<close>

record datetime =
  year :: int
  month :: int
  day :: int
  hour :: int
  minute :: int
  second :: int
  microsecond :: int

definition is_leap :: "int \<Rightarrow> bool" where
  "is_leap y = (y mod 4 = 0 \<and> (y mod 100 \<noteq> 0 \<or> y mod 400 = 0))"

definition days_in_month :: "int \<Rightarrow> int \<Rightarrow> int" where
  "days_in_month y m =
     (if m = 2 then (if is_leap y then 29 else 28)
      else if m = 4 \<or> m = 6 \<or> m = 9 \<or> m = 11 then 30 else 31)"

definition valid_datetime :: "datetime \<Rightarrow> bool" where
  "valid_datetime d =
     (1 \<le> year d \<and> year d \<le> 9999 \<and> 1 \<le> month d \<and> month d \<le> 12 \<and>
      1 \<le> day d \<and> day d \<le> days_in_month (year d) (month d) \<and>
      0 \<le> hour d \<and> hour d < 24 \<and> 0 \<le> minute d \<and> minute d < 60 \<and>
      0 \<le> second d \<and> second d < 60 \<and> 0 \<le> microsecond d \<and> microsecond d < 1000000)"

definition datetime_new :: "int \<Rightarrow> int \<Rightarrow> int \<Rightarrow> int \<Rightarrow> int \<Rightarrow> int \<Rightarrow> int \<Rightarrow> datetime option" where
  "datetime_new y mo d h mi s us =
     (let r = \<lparr>year = y, month = mo, day = d, hour = h, minute = mi, second = s,
                microsecond = us\<rparr>
      in if valid_datetime r then Some r else None)"

text \<open>\<^verbatim>\<open>d.replace(year=y)\<close> and \<^verbatim>\<open>d.replace(year=y, month=mo, day=dd)\<close>.\<close>

definition replace_year :: "datetime \<Rightarrow> int \<Rightarrow> datetime option" where
  "replace_year d y =
     datetime_new y (month d) (day d) (hour d) (minute d) (second d) (microsecond d)"

definition replace_date :: "datetime \<Rightarrow> int \<Rightarrow> int \<Rightarrow> int \<Rightarrow> datetime option" where
  "replace_date d y mo dd =
     datetime_new y mo dd (hour d) (minute d) (second d) (microsecond d)"

text \<open>Comparison of dates and of datetimes is field by field, most significant first.\<close>

fun lex_less :: "int list \<Rightarrow> int list \<Rightarrow> bool" where
  "lex_less (a # as) (b # bs) = (a < b \<or> (a = b \<and> lex_less as bs))"
| "lex_less _ _ = False"

definition date_key :: "datetime \<Rightarrow> int list" where
  "date_key d = [year d, month d, day d]"

definition dt_key :: "datetime \<Rightarrow> int list" where
  "dt_key d = [year d, month d, day d, hour d, minute d, second d, microsecond d]"

definition date_less :: "datetime \<Rightarrow> datetime \<Rightarrow> bool" where
  "date_less a b = lex_less (date_key a) (date_key b)"

definition same_date :: "datetime \<Rightarrow> datetime \<Rightarrow> bool" where
  "same_date a b = (date_key a = date_key b)"

definition dt_less :: "datetime \<Rightarrow> datetime \<Rightarrow> bool" where
  "dt_less a b = lex_less (dt_key a) (dt_key b)"

text \<open>
  \<^verbatim>\<open>d + timedelta(minutes=m)\<close>: the wall-clock minutes are carried into whole days, and the
  date moves that many days along the calendar. A result outside the years 1 to 9999 raises
  \<^verbatim>\<open>OverflowError\<close> (here \<open>None\<close>).
\<close>

fun next_day :: "int \<times> int \<times> int \<Rightarrow> int \<times> int \<times> int" where
  "next_day (y, m, d) =
     (if d < days_in_month y m then (y, m, d + 1)
      else if m < 12 then (y, m + 1, 1)
      else (y + 1, 1, 1))"

fun prev_day :: "int \<times> int \<times> int \<Rightarrow> int \<times> int \<times> int" where
  "prev_day (y, m, d) =
     (if 1 < d then (y, m, d - 1)
      else if 1 < m then (y, m - 1, days_in_month y (m - 1))
      else (y - 1, 12, 31))"

definition shift_days :: "int \<times> int \<times> int \<Rightarrow> int \<Rightarrow> int \<times> int \<times> int" where
  "shift_days ymd k = (if 0 \<le> k then (next_day ^^ nat k) ymd else (prev_day ^^ nat (- k)) ymd)"

definition dt_add_minutes :: "datetime \<Rightarrow> int \<Rightarrow> datetime option" where
  "dt_add_minutes x m =
     (let total = hour x * 60 + minute x + m;
          r = total mod 1440
      in case shift_days (year x, month x, day x) (total div 1440) of
           (y, mo, d) \<Rightarrow>
             if 1 \<le> y \<and> y \<le> 9999
             then Some (x\<lparr>year := y, month := mo, day := d, hour := r div 60, minute := r mod 60\<rparr>)
             else None)"

text \<open>
  An aware datetime: the fields on the wall clock of its zone, and the zone's offset from UTC
  in minutes. \<^verbatim>\<open>a.astimezone(tz)\<close>, for a zone at a fixed offset, moves the wall clock by
  the difference of the offsets; \<^verbatim>\<open>a.isoformat()\<close> prints the fields and the offset.
\<close>

record aware =
  naive :: datetime
  utcoffset :: int

definition astimezone :: "int \<Rightarrow> aware \<Rightarrow> aware option" where
  "astimezone off a =
     map_option (\<lambda>n. \<lparr>naive = n, utcoffset = off\<rparr>)
                (dt_add_minutes (naive a) (off - utcoffset a))"

primrec zpad :: "nat \<Rightarrow> int \<Rightarrow> string" where
  "zpad 0 n = []"
| "zpad (Suc w) n = zpad w (n div 10) @ [''0123456789'' ! nat (n mod 10)]"

definition isoformat :: "aware \<Rightarrow> string" where
  "isoformat a =
     (let d = naive a; off = utcoffset a
      in zpad 4 (year d) @ ''-'' @ zpad 2 (month d) @ ''-'' @ zpad 2 (day d) @ ''T'' @
         zpad 2 (hour d) @ '':'' @ zpad 2 (minute d) @ '':'' @ zpad 2 (second d) @
         (if microsecond d \<noteq> 0 then ''.'' @ zpad 6 (microsecond d) else []) @
         (if off < 0 then ''-'' else ''+'') @ zpad 2 (\<bar>off\<bar> div 60) @ '':'' @
         zpad 2 (\<bar>off\<bar> mod 60))"

section \<open>\<^verbatim>\<open>datetime.strptime\<close>\<close>

text \<open>
  The library turns a format into a regular expression (directive by directive, a run of
  whitespace in the format becoming \<^verbatim>\<open>\s+\<close>, every other character standing for itself),
  compiles it with \<^verbatim>\<open>IGNORECASE\<close>, matches it at the start of the text and raises
  \<^verbatim>\<open>ValueError\<close> when there is no match or when text is left over. Names of weekdays and
  months are those of the English locale; the alternatives of a name directive are ordered
  longest first by a stable sort.
\<close>

definition cls :: "string \<Rightarrow> regex" where
  "cls s = Chr (\<lambda>c. c \<in> set s)"

definition f_weekday :: "string list" where
  "f_weekday = [''monday'', ''tuesday'', ''wednesday'', ''thursday'', ''friday'', ''saturday'',
                ''sunday'']"

definition f_month :: "string list" where
  "f_month = [[], ''january'', ''february'', ''march'', ''april'', ''may'', ''june'', ''july'',
              ''august'', ''september'', ''october'', ''november'', ''december'']"

definition am_pm :: "string list" where
  "am_pm = [''am'', ''pm'']"

definition seqToRE :: "string list \<Rightarrow> string \<Rightarrow> regex" where
  "seqToRE to_convert directive =
     Grp directive (alts (map ilit (sort_key (\<lambda>v. - int (length v)) to_convert)))"

definition directive_regex :: "char \<Rightarrow> regex option" where
  "directive_regex c =
     (if c = CHR ''d'' then
        Some (Grp ''d'' (alts [Seq (cls ''3'') (cls ''01''), Seq (cls ''12'') (Chr isdigit),
                              Seq (cls ''0'') (cls ''123456789''), cls ''123456789'',
                              Seq (cls '' '') (cls ''123456789'')]))
      else if c = CHR ''I'' then
        Some (Grp ''I'' (alts [Seq (cls ''1'') (cls ''012''), Seq (cls ''0'') (cls ''123456789''),
                              cls ''123456789'']))
      else if c = CHR ''m'' then
        Some (Grp ''m'' (alts [Seq (cls ''1'') (cls ''012''), Seq (cls ''0'') (cls ''123456789''),
                              cls ''123456789'']))
      else if c = CHR ''M'' then
        Some (Grp ''M'' (alts [Seq (cls ''012345'') (Chr isdigit), Chr isdigit]))
      else if c = CHR ''Y'' then
        Some (Grp ''Y'' (Seq (Chr isdigit) (Seq (Chr isdigit) (Seq (Chr isdigit) (Chr isdigit)))))
      else if c = CHR ''A'' then Some (seqToRE f_weekday ''A'')
      else if c = CHR ''B'' then Some (seqToRE (tl f_month) ''B'')
      else if c = CHR ''p'' then Some (seqToRE am_pm ''p'')
      else None)"

text \<open>
  \<^verbatim>\<open>TimeRE.pattern\<close>. \<open>None\<close> is a directive outside the eight that the program's formats
  use, or a stray percent sign.
\<close>

function pattern :: "string \<Rightarrow> regex option" where
  "pattern [] = Some Eps"
| "pattern (c # cs) =
     (if c = CHR ''%'' then
        (case cs of
           [] \<Rightarrow> None
         | d # rest \<Rightarrow>
             (case directive_regex d of
                None \<Rightarrow> None
              | Some r \<Rightarrow> map_option (Seq r) (pattern rest)))
      else if isspace c then map_option (Seq (Plus isspace)) (pattern (dropWhile isspace cs))
      else map_option (Seq (Chr (\<lambda>x. lower_chr x = lower_chr c))) (pattern cs))"
  by pat_completeness auto
termination
  by (relation "measure length") (simp_all add: length_dropWhile_le less_Suc_eq_le)

text \<open>\<^verbatim>\<open>list.index\<close> of an element that is present.\<close>

fun index_of :: "string \<Rightarrow> string list \<Rightarrow> int" where
  "index_of x [] = 0"
| "index_of x (y # ys) = (if x = y then 0 else 1 + index_of x ys)"

text \<open>
  The values taken from the groups of the match. Without a year the library computes with a
  default year: 1900, which is not a leap year (for 29 February it computes in 1904 and then
  sets the year back to 1900, so that constructing the datetime raises \<^verbatim>\<open>ValueError\<close>).
  A weekday group is found by the match but enters none of the fields.
\<close>

definition strptime_hour :: "groups \<Rightarrow> int option" where
  "strptime_hour g =
     (case map_of g ''I'' of
        None \<Rightarrow> Some 0
      | Some t \<Rightarrow>
          (case py_int t of
             None \<Rightarrow> None
           | Some h \<Rightarrow>
               (let ampm = lower (case map_of g ''p'' of None \<Rightarrow> [] | Some p \<Rightarrow> p)
                in Some (if ampm = [] \<or> ampm = am_pm ! 0 then (if h = 12 then 0 else h)
                         else if ampm = am_pm ! 1 then (if h \<noteq> 12 then h + 12 else h)
                         else h))))"

definition strptime_month :: "groups \<Rightarrow> int option" where
  "strptime_month g =
     (case map_of g ''m'' of
        Some t \<Rightarrow> py_int t
      | None \<Rightarrow>
          (case map_of g ''B'' of
             Some t \<Rightarrow> Some (index_of (lower t) f_month)
           | None \<Rightarrow> Some 1))"

definition strptime_build :: "groups \<Rightarrow> datetime option" where
  "strptime_build g =
     (case (case map_of g ''Y'' of None \<Rightarrow> Some 1900 | Some t \<Rightarrow> py_int t) of
        None \<Rightarrow> None
      | Some y \<Rightarrow>
     (case strptime_month g of
        None \<Rightarrow> None
      | Some mo \<Rightarrow>
     (case (case map_of g ''d'' of None \<Rightarrow> Some 1 | Some t \<Rightarrow> py_int t) of
        None \<Rightarrow> None
      | Some d \<Rightarrow>
     (case strptime_hour g of
        None \<Rightarrow> None
      | Some h \<Rightarrow>
     (case (case map_of g ''M'' of None \<Rightarrow> Some 0 | Some t \<Rightarrow> py_int t) of
        None \<Rightarrow> None
      | Some mi \<Rightarrow> datetime_new y mo d h mi 0 0)))))"

definition strptime :: "string \<Rightarrow> string \<Rightarrow> datetime option" where
  "strptime data_string format =
     (case pattern format of
        None \<Rightarrow> None
      | Some r \<Rightarrow>
          (case re_match r data_string of
             None \<Rightarrow> None
           | Some (g, rest) \<Rightarrow> if rest \<noteq> [] then None else strptime_build g))"

section \<open>\<^verbatim>\<open>parse_flexible_date\<close>\<close>

definition formats :: "string list" where
  "formats = [''%A, %d %B %Y'', ''%A, %d %B'', ''%d %B %Y'', ''%B %d, %Y'', ''%m/%d/%Y'',
              ''%Y-%m-%d'', ''%d-%m-%Y'']"

text \<open>
  The body of the \<^verbatim>\<open>try\<close> block for one format; \<open>None\<close> is the \<^verbatim>\<open>ValueError\<close> that the
  loop answers with \<^verbatim>\<open>continue\<close>. \<open>now\<close> is the clock reading \<^verbatim>\<open>datetime.now()\<close> taken
  before the loop.
\<close>

definition try_format :: "datetime \<Rightarrow> string \<Rightarrow> string \<Rightarrow> datetime option" where
  "try_format now date_string fmt =
     (case strptime date_string fmt of
        None \<Rightarrow> None
      | Some date_obj \<Rightarrow>
          if \<not> contains ''%Y'' fmt then
            (case replace_year date_obj (year now) of
               None \<Rightarrow> None
             | Some date_obj1 \<Rightarrow>
                 if date_less date_obj1 now then replace_year date_obj1 (year now + 1)
                 else Some date_obj1)
          else Some date_obj)"

fun try_formats :: "datetime \<Rightarrow> string \<Rightarrow> string list \<Rightarrow> datetime option" where
  "try_formats now date_string [] = None"
| "try_formats now date_string (fmt # fmts) =
     (case try_format now date_string fmt of
        Some date_obj \<Rightarrow> Some date_obj
      | None \<Rightarrow> try_formats now date_string fmts)"

definition parse_flexible_date :: "datetime \<Rightarrow> string \<Rightarrow> datetime option" where
  "parse_flexible_date now date_string = try_formats now date_string formats"

section \<open>The pipeline state and its errors\<close>

text \<open>
  The program records an error as a message built from a fixed prefix, one per handler, and
  the text of the exception. The datatype has one constructor per handler and, below it, one
  per place that raises. Every message is a non-empty text, so the test
  \<^verbatim>\<open>state.get("error")\<close> holds exactly when the field is not \<open>None\<close>.
\<close>

datatype parse_error =
    NoAIOutput
  | EssentialDetailsMissing
  | ExceedsDigitLimit

datatype value_error =
    CouldNotParseDate string
  | TimeFormatIncorrect string
  | TooManyValues
  | NotEnoughValues
  | TimeDataMismatch string
  | ReplaceOutOfRange
  | PastDate datetime

datatype other_error =
    TypeErr
  | OverflowErr

datatype error =
    GettingAIResponse
  | ParsingAIResponse parse_error
  | DateTimeParsing value_error
  | DateTimeUnexpected other_error
  | GoogleApiAuthentication
  | AuthenticationError
  | PreparingEvent
  | GoogleApiScheduling
  | FailedToCreateEvent

record time_point =
  dateTime :: string
  timeZone :: string

record reminder =
  method_name :: string
  minutes :: int

record reminders =
  useDefault :: bool
  overrides :: "reminder list"

record event =
  ev_summary :: "string option"
  ev_start :: time_point
  ev_end :: time_point
  ev_description :: string
  ev_reminders :: reminders

datatype service = CalendarService

type_synonym created_event = "(string \<times> string) list"

record SchedulerState =
  sentence :: string
  "output" :: "string option"
  task_title :: "string option"
  scheduled_date_str :: "string option"
  scheduled_time_str :: "string option"
  duration_minutes :: "int option"
  start_dt :: "aware option"
  end_dt :: "aware option"
  service :: "service option"
  event :: "event option"
  created_event :: "created_event option"
  error :: "error option"
  parsed_priority :: "string option"

text \<open>
  What lies outside the program: the language model, the clock, the machine's time zone,
  Google's sign-in and the calendar service. The rendering calls of the user interface are
  not modelled. Calls that leave the program are recorded.
\<close>

datatype auth_result =
    AuthOk
  | AuthHttpError
  | AuthFailed

datatype insert_result =
    Inserted created_event
  | InsertHttpError
  | InsertFailed

record env =
  llm_invoke :: "string \<Rightarrow> string option"
  clock_text :: string
  clock_parse :: datetime
  clock_local :: datetime
  local_offset :: int
  google_auth :: auth_result
  calendar_insert :: "event option \<Rightarrow> insert_result"

datatype call =
    LlmInvoke string
  | GoogleAuth
  | CalendarInsert "event option"

section \<open>The stages\<close>

text \<open>
  \<^verbatim>\<open>process_ai_request\<close>. Of the prompt only the two lines that carry the request and the
  current time are kept; the fixed instructions and the reply layout that follow them in the
  source are constant text.
\<close>

definition build_prompt :: "string \<Rightarrow> string \<Rightarrow> string" where
  "build_prompt sentence_text now_text =
     ''User's Request: '' @ [CHR 0x22] @ sentence_text @ [CHR 0x22, CHR 0x0A, CHR 0x0A] @
     ''Current Date and Time: '' @ now_text"

definition process_ai_request :: "env \<Rightarrow> SchedulerState \<Rightarrow> SchedulerState \<times> call list" where
  "process_ai_request e s =
     (let prompt = build_prompt (sentence s) (clock_text e)
      in case llm_invoke e prompt of
           Some content \<Rightarrow> (s\<lparr>output := Some (strip content)\<rparr>, [LlmInvoke prompt])
         | None \<Rightarrow> (s\<lparr>error := Some GettingAIResponse, output := None\<rparr>, [LlmInvoke prompt]))"

text \<open>
  \<^verbatim>\<open>parse_ai_response\<close>. The three required fields are written before \<^verbatim>\<open>int\<close> reads the
  duration; when \<^verbatim>\<open>int\<close> raises, the handler records the error, the three fields stay
  written and the duration and the priority keep the values they had.
\<close>

definition parse_ai_response :: "SchedulerState \<Rightarrow> SchedulerState" where
  "parse_ai_response s =
     (if error s \<noteq> None then s
      else case output s of
        None \<Rightarrow> s\<lparr>error := Some (ParsingAIResponse NoAIOutput)\<rparr>
      | Some out \<Rightarrow>
          if out = [] then s\<lparr>error := Some (ParsingAIResponse NoAIOutput)\<rparr>
          else
            (let task_title_match = re_search (label_text ''Task:'') out;
                 scheduled_date_str_match = re_search (label_text ''Date:'') out;
                 scheduled_time_str_match = re_search (label_text ''Time:'') out;
                 duration_minutes_match = re_search (label_digits ''Duration:'') out;
                 priority_match = re_search (label_text ''Priority:'') out
             in case (task_title_match, scheduled_date_str_match, scheduled_time_str_match) of
                  (Some t, Some d, Some ti) \<Rightarrow>
                    (case (case duration_minutes_match of
                             Some m \<Rightarrow> py_int (group1 m)
                           | None \<Rightarrow> Some 60) of
                       None \<Rightarrow>
                         s\<lparr>task_title := Some (strip (group1 t)),
                           scheduled_date_str := Some (strip (group1 d)),
                           scheduled_time_str := Some (strip (group1 ti)),
                           error := Some (ParsingAIResponse ExceedsDigitLimit)\<rparr>
                     | Some n \<Rightarrow>
                         s\<lparr>task_title := Some (strip (group1 t)),
                           scheduled_date_str := Some (strip (group1 d)),
                           scheduled_time_str := Some (strip (group1 ti)),
                           duration_minutes := Some n,
                           parsed_priority :=
                             Some (case priority_match of
                                     Some m \<Rightarrow> strip (group1 m)
                                   | None \<Rightarrow> ''Normal'')\<rparr>)
                | _ \<Rightarrow> s\<lparr>error := Some (ParsingAIResponse EssentialDetailsMissing)\<rparr>))"

text \<open>
  \<^verbatim>\<open>parse_datetime\<close>, in the order of the source. Each step is the part of the \<^verbatim>\<open>try\<close>
  block that can raise; \<open>Inl\<close> is the error that the handlers record. The block first
  reads the date and the two ends of the range (\<open>parse_range\<close>), then compares the start
  with the clock, then converts to UTC.
\<close>

definition split_time_range :: "string \<Rightarrow> error + string \<times> string" where
  "split_time_range scheduled_time =
     (if \<not> contains '' - '' scheduled_time
      then Inl (DateTimeParsing (TimeFormatIncorrect scheduled_time))
      else case map strip (split_on (CHR ''-'') scheduled_time) of
             [start_time_part, end_time_part] \<Rightarrow> Inr (start_time_part, end_time_part)
           | _ # _ # _ # _ \<Rightarrow> Inl (DateTimeParsing TooManyValues)
           | _ \<Rightarrow> Inl (DateTimeParsing NotEnoughValues))"

definition time_on_date :: "datetime \<Rightarrow> string \<Rightarrow> error + datetime" where
  "time_on_date date_obj time_part =
     (case strptime time_part ''%I:%M %p'' of
        None \<Rightarrow> Inl (DateTimeParsing (TimeDataMismatch time_part))
      | Some t \<Rightarrow>
          (case replace_date t (year date_obj) (month date_obj) (day date_obj) of
             None \<Rightarrow> Inl (DateTimeParsing ReplaceOutOfRange)
           | Some dt \<Rightarrow> Inr dt))"

definition past_time_correction ::
  "datetime \<Rightarrow> int option \<Rightarrow> datetime \<Rightarrow> datetime \<Rightarrow> error + datetime \<times> datetime" where
  "past_time_correction now_local duration start_dt_local end_dt_local =
     (if dt_less start_dt_local now_local then
        (if same_date start_dt_local now_local then
           (case dt_add_minutes now_local 5 of
              None \<Rightarrow> Inl (DateTimeUnexpected OverflowErr)
            | Some start' \<Rightarrow>
                (case duration of
                   None \<Rightarrow> Inl (DateTimeUnexpected TypeErr)
                 | Some m \<Rightarrow>
                     (case dt_add_minutes start' m of
                        None \<Rightarrow> Inl (DateTimeUnexpected OverflowErr)
                      | Some end' \<Rightarrow> Inr (start', end'))))
         else Inl (DateTimeParsing (PastDate start_dt_local)))
      else Inr (start_dt_local, end_dt_local))"

definition to_utc :: "int \<Rightarrow> datetime \<Rightarrow> error + aware" where
  "to_utc off d =
     (case astimezone 0 \<lparr>naive = d, utcoffset = off\<rparr> of
        None \<Rightarrow> Inl (DateTimeUnexpected OverflowErr)
      | Some a \<Rightarrow> Inr a)"

definition parse_range :: "env \<Rightarrow> SchedulerState \<Rightarrow> error + datetime \<times> datetime" where
  "parse_range e s =
     (case scheduled_date_str s of
        None \<Rightarrow> Inl (DateTimeUnexpected TypeErr)
      | Some date_text \<Rightarrow>
     (case parse_flexible_date (clock_parse e) date_text of
        None \<Rightarrow> Inl (DateTimeParsing (CouldNotParseDate date_text))
      | Some date_obj \<Rightarrow>
     (case scheduled_time_str s of
        None \<Rightarrow> Inl (DateTimeUnexpected TypeErr)
      | Some time_text \<Rightarrow>
     (case split_time_range time_text of
        Inl err \<Rightarrow> Inl err
      | Inr (start_time_part, end_time_part) \<Rightarrow>
     (case time_on_date date_obj start_time_part of
        Inl err \<Rightarrow> Inl err
      | Inr start_dt_naive \<Rightarrow>
     (case time_on_date date_obj end_time_part of
        Inl err \<Rightarrow> Inl err
      | Inr end_dt_naive \<Rightarrow> Inr (start_dt_naive, end_dt_naive)))))))"

definition resolve_slot :: "env \<Rightarrow> SchedulerState \<Rightarrow> error + aware \<times> aware" where
  "resolve_slot e s =
     (case parse_range e s of
        Inl err \<Rightarrow> Inl err
      | Inr (start_dt_naive, end_dt_naive) \<Rightarrow>
     (case past_time_correction (clock_local e) (duration_minutes s)
             start_dt_naive end_dt_naive of
        Inl err \<Rightarrow> Inl err
      | Inr (start_dt_local, end_dt_local) \<Rightarrow>
     (case to_utc (local_offset e) start_dt_local of
        Inl err \<Rightarrow> Inl err
      | Inr start_dt_utc \<Rightarrow>
     (case to_utc (local_offset e) end_dt_local of
        Inl err \<Rightarrow> Inl err
      | Inr end_dt_utc \<Rightarrow> Inr (start_dt_utc, end_dt_utc)))))"

definition parse_datetime :: "env \<Rightarrow> SchedulerState \<Rightarrow> SchedulerState" where
  "parse_datetime e s =
     (if error s \<noteq> None then s
      else case resolve_slot e s of
             Inl err \<Rightarrow> s\<lparr>error := Some err\<rparr>
           | Inr (start_dt_utc, end_dt_utc) \<Rightarrow>
               s\<lparr>start_dt := Some start_dt_utc, end_dt := Some end_dt_utc\<rparr>)"

text \<open>
  \<^verbatim>\<open>authenticate_google\<close>: the token file, the refresh and the sign-in window belong to
  Google's client library; the stage sees whether they ended well.
\<close>

definition authenticate_google :: "env \<Rightarrow> SchedulerState \<Rightarrow> SchedulerState \<times> call list" where
  "authenticate_google e s =
     (if error s \<noteq> None then (s, [])
      else case google_auth e of
             AuthOk \<Rightarrow> (s\<lparr>service := Some CalendarService\<rparr>, [GoogleAuth])
           | AuthHttpError \<Rightarrow> (s\<lparr>error := Some GoogleApiAuthentication\<rparr>, [GoogleAuth])
           | AuthFailed \<Rightarrow> (s\<lparr>error := Some AuthenticationError\<rparr>, [GoogleAuth]))"

text \<open>\<^verbatim>\<open>create_event\<close>. An f-string prints a missing value as \<^verbatim>\<open>None\<close>.\<close>

definition fstr :: "string option \<Rightarrow> string" where
  "fstr v = (case v of None \<Rightarrow> ''None'' | Some t \<Rightarrow> t)"

definition event_description :: "string \<Rightarrow> string option \<Rightarrow> string" where
  "event_description sentence_text out =
     ''Scheduled via AI Scheduler.'' @ [CHR 0x0A, CHR 0x0A] @
     ''Original Request: '' @ [CHR 0x22] @ sentence_text @ [CHR 0x22, CHR 0x0A, CHR 0x0A] @
     ''AI Analysis:'' @ [CHR 0x0A] @ fstr out"

definition reminder_policy :: reminders where
  "reminder_policy =
     \<lparr>useDefault = False,
      overrides = [\<lparr>method_name = ''email'', minutes = 24 * 60\<rparr>, \<lparr>method_name = ''popup'', minutes = 10\<rparr>]\<rparr>"

definition create_event :: "SchedulerState \<Rightarrow> SchedulerState" where
  "create_event s =
     (if error s \<noteq> None then s
      else case (start_dt s, end_dt s) of
             (Some a, Some b) \<Rightarrow>
               s\<lparr>event := Some
                   \<lparr>ev_summary = task_title s,
                    ev_start = \<lparr>dateTime = isoformat a, timeZone = ''Asia/Kolkata''\<rparr>,
                    ev_end = \<lparr>dateTime = isoformat b, timeZone = ''Asia/Kolkata''\<rparr>,
                    ev_description = event_description (sentence s) (output s),
                    ev_reminders = reminder_policy\<rparr>\<rparr>
           | _ \<Rightarrow> s\<lparr>error := Some PreparingEvent\<rparr>)"

text \<open>\<^verbatim>\<open>schedule_event\<close>: the one place that calls the calendar's insert.\<close>

definition schedule_event :: "env \<Rightarrow> SchedulerState \<Rightarrow> SchedulerState \<times> call list" where
  "schedule_event e s =
     (if error s \<noteq> None then (s, [])
      else case (start_dt s, end_dt s) of
             (Some a, Some b) \<Rightarrow>
               (case (astimezone (local_offset e) a, astimezone (local_offset e) b, service s) of
                  (Some start_local, Some end_local, Some svc) \<Rightarrow>
                    (case calendar_insert e (event s) of
                       Inserted created \<Rightarrow>
                         (s\<lparr>created_event := Some created\<rparr>, [CalendarInsert (event s)])
                     | InsertHttpError \<Rightarrow>
                         (s\<lparr>error := Some GoogleApiScheduling\<rparr>, [CalendarInsert (event s)])
                     | InsertFailed \<Rightarrow>
                         (s\<lparr>error := Some FailedToCreateEvent\<rparr>, [CalendarInsert (event s)]))
                | _ \<Rightarrow> (s\<lparr>error := Some FailedToCreateEvent\<rparr>, []))
           | _ \<Rightarrow> (s\<lparr>error := Some FailedToCreateEvent\<rparr>, []))"

text \<open>\<^verbatim>\<open>handle_error\<close> only renders the message.\<close>

definition handle_error :: "SchedulerState \<Rightarrow> SchedulerState" where
  "handle_error s = s"

definition should_continue :: "SchedulerState \<Rightarrow> string" where
  "should_continue s = (if error s \<noteq> None then ''error'' else ''continue'')"

section \<open>The workflow\<close>

datatype node =
    process_ai
  | parse_response
  | parse_datetime_node
  | authenticate
  | create_event_node
  | schedule
  | error_handler

definition run_node :: "env \<Rightarrow> node \<Rightarrow> SchedulerState \<Rightarrow> SchedulerState \<times> call list" where
  "run_node e n s =
     (case n of
        process_ai \<Rightarrow> process_ai_request e s
      | parse_response \<Rightarrow> (parse_ai_response s, [])
      | parse_datetime_node \<Rightarrow> (parse_datetime e s, [])
      | authenticate \<Rightarrow> authenticate_google e s
      | create_event_node \<Rightarrow> (create_event s, [])
      | schedule \<Rightarrow> schedule_event e s
      | error_handler \<Rightarrow> (handle_error s, []))"

text \<open>
  The edges of \<^verbatim>\<open>create_workflow\<close>: a conditional edge maps the answer of
  \<^verbatim>\<open>should_continue\<close> to the next node; \<open>None\<close> is \<^verbatim>\<open>END\<close>.
\<close>

definition conditional_edges :: "node \<Rightarrow> (string \<times> node) list" where
  "conditional_edges n =
     (case n of
        process_ai \<Rightarrow> [(''continue'', parse_response), (''error'', error_handler)]
      | parse_response \<Rightarrow> [(''continue'', parse_datetime_node), (''error'', error_handler)]
      | parse_datetime_node \<Rightarrow> [(''continue'', authenticate), (''error'', error_handler)]
      | authenticate \<Rightarrow> [(''continue'', create_event_node), (''error'', error_handler)]
      | create_event_node \<Rightarrow> [(''continue'', schedule), (''error'', error_handler)]
      | schedule \<Rightarrow> []
      | error_handler \<Rightarrow> [])"

definition next_node :: "node \<Rightarrow> SchedulerState \<Rightarrow> node option" where
  "next_node n s = map_of (conditional_edges n) (should_continue s)"

fun depth :: "node \<Rightarrow> nat" where
  "depth process_ai = 5"
| "depth parse_response = 4"
| "depth parse_datetime_node = 3"
| "depth authenticate = 2"
| "depth create_event_node = 1"
| "depth schedule = 0"
| "depth error_handler = 0"

text \<open>
  Running the graph from a node: the final state, the calls made, and the nodes visited.
\<close>

function run :: "env \<Rightarrow> node \<Rightarrow> SchedulerState \<Rightarrow> SchedulerState \<times> call list \<times> node list" where
  "run e n s =
     (case run_node e n s of
        (s', calls) \<Rightarrow>
          (case next_node n s' of
             None \<Rightarrow> (s', calls, [n])
           | Some n' \<Rightarrow>
               (case run e n' s' of
                  (s'', calls', visited) \<Rightarrow> (s'', calls @ calls', n # visited))))"
  by pat_completeness auto
termination
proof (relation "measure (\<lambda>(e, n, s). depth n)")
  fix e :: env and n n' :: node and s s' :: SchedulerState
  assume "next_node n s' = Some n'"
  then have "depth n' < depth n"
    by (cases n)
       (auto simp: next_node_def conditional_edges_def should_continue_def split: if_splits)
  then show "((e, n', s'), (e, n, s)) \<in> measure (\<lambda>(e, n, s). depth n)" by simp
qed simp

definition initial_state :: "string \<Rightarrow> SchedulerState" where
  "initial_state sentence_text =
     \<lparr>sentence = sentence_text, output = None, task_title = None, scheduled_date_str = None,
      scheduled_time_str = None, duration_minutes = Some 60, start_dt = None, end_dt = None,
      service = None, event = None, created_event = None, error = None,
      parsed_priority = None\<rparr>"

definition invoke :: "env \<Rightarrow> string \<Rightarrow> SchedulerState \<times> call list \<times> node list" where
  "invoke e sentence_text = run e process_ai (initial_state sentence_text)"

section \<open>The labelled fields, in the words of the specification\<close>

text \<open>
  The text that a label announces: at the first place where the label stands and is followed
  by something other than line breaks, the white space after the label is skipped (line
  breaks included), the rest of that line is taken and trimmed. The digits that a label
  announces: at the first place where the label stands and is followed, after white space, by
  a digit, the run of digits. These are compared with what the searches of
  \<^verbatim>\<open>parse_ai_response\<close> return.
\<close>

definition only_newlines :: "string \<Rightarrow> bool" where
  "only_newlines s = (dropWhile (\<lambda>c. c = CHR 0x0A) s = [])"

fun text_after :: "string \<Rightarrow> string \<Rightarrow> string option" where
  "text_after l [] = None"
| "text_after l (c # cs) =
     (if take (length l) (c # cs) = l \<and> \<not> only_newlines (drop (length l) (c # cs))
      then Some (strip (takeWhile dot (dropWhile isspace (drop (length l) (c # cs)))))
      else text_after l cs)"

fun digits_after :: "string \<Rightarrow> string \<Rightarrow> string option" where
  "digits_after l [] = None"
| "digits_after l (c # cs) =
     (if take (length l) (c # cs) = l \<and>
         takeWhile isdigit (dropWhile isspace (drop (length l) (c # cs))) \<noteq> []
      then Some (takeWhile isdigit (dropWhile isspace (drop (length l) (c # cs))))
      else digits_after l cs)"

section \<open>Notions used in the proofs\<close>

text \<open>
  The order of dates on triples of year, month and day; the names of the groups of an
  expression; a weekday name in any mix of cases; two names of which one begins the other.
\<close>

definition ymd_less :: "int \<times> int \<times> int \<Rightarrow> int \<times> int \<times> int \<Rightarrow> bool" where
  "ymd_less p q =
     (case p of (y, m, d) \<Rightarrow> case q of (y', m', d') \<Rightarrow> lex_less [y, m, d] [y', m', d'])"

primrec group_names :: "regex \<Rightarrow> string list" where
  "group_names Eps = []"
| "group_names (Chr P) = []"
| "group_names (Star P) = []"
| "group_names (Plus P) = []"
| "group_names (Seq a b) = group_names a @ group_names b"
| "group_names (Alt a b) = group_names a @ group_names b"
| "group_names (Grp n a) = group_names a @ [n]"

definition is_weekday_name :: "string \<Rightarrow> bool" where
  "is_weekday_name w = (lower w \<in> set f_weekday)"

definition prefix_clash :: "string \<Rightarrow> string \<Rightarrow> bool" where
  "prefix_clash a b =
     (take (min (length a) (length b)) a = take (min (length a) (length b)) b)"

section \<open>Example requests\<close>

text \<open>
  A clock reading, replies of the model, environments (one whose calendar accepts the event,
  one whose calendar refuses it) and pipeline states, used to run the program on concrete
  input.
\<close>

definition example_now :: datetime where
  "example_now =
     \<lparr>year = 2027, month = 5, day = 20, hour = 9, minute = 30, second = 7, microsecond = 12\<rparr>"

definition example_reply :: string where
  "example_reply =
     ''Task: Sync'' @ [CHR 0x0A] @ ''Date: Friday, 28 May 2027'' @ [CHR 0x0A] @
     ''Time: 3:00 PM - 3:30 PM'' @ [CHR 0x0A] @ ''Duration: 30''"

definition example_env :: env where
  "example_env =
     \<lparr>llm_invoke = (\<lambda>p. Some example_reply), clock_text = ''Thursday, 20 May 2027 09:30 AM'',
      clock_parse = example_now, clock_local = example_now, local_offset = 330,
      google_auth = AuthOk, calendar_insert = (\<lambda>ev. Inserted [(''id'', ''e1'')])\<rparr>"

definition refusing_env :: env where
  "refusing_env = example_env\<lparr>calendar_insert := (\<lambda>ev. InsertFailed)\<rparr>"

definition failed_state :: SchedulerState where
  "failed_state = (initial_state ''Sync'')\<lparr>error := Some GettingAIResponse\<rparr>"

definition replied_state :: SchedulerState where
  "replied_state = (initial_state ''Sync'')\<lparr>output := Some example_reply\<rparr>"

definition resolved_state :: SchedulerState where
  "resolved_state =
     (initial_state ''Sync'')
       \<lparr>output := Some example_reply, task_title := Some ''Sync'',
        scheduled_date_str := Some ''Friday, 28 May 2027'',
        scheduled_time_str := Some ''3:00 PM - 3:30 PM'', duration_minutes := Some 30,
        start_dt := Some \<lparr>naive = \<lparr>year = 2027, month = 5, day = 28, hour = 9, minute = 30,
                                     second = 0, microsecond = 0\<rparr>, utcoffset = 0\<rparr>,
        end_dt := Some \<lparr>naive = \<lparr>year = 2027, month = 5, day = 28, hour = 10, minute = 0,
                                   second = 0, microsecond = 0\<rparr>, utcoffset = 0\<rparr>\<rparr>"

definition undated_state :: SchedulerState where
  "undated_state = resolved_state\<lparr>scheduled_date_str := Some ''next Friday'', start_dt := None, end_dt := None\<rparr>"

definition same_day_past_state :: SchedulerState where
  "same_day_past_state =
     resolved_state\<lparr>scheduled_date_str := Some ''Thursday, 20 May 2027'',
                    scheduled_time_str := Some ''8:00 AM - 8:30 AM'',
                    start_dt := None, end_dt := None\<rparr>"

definition other_day_past_state :: SchedulerState where
  "other_day_past_state =
     resolved_state\<lparr>scheduled_date_str := Some ''Wednesday, 19 May 2027'',
                    scheduled_time_str := Some ''8:00 AM - 8:30 AM'',
                    start_dt := None, end_dt := None\<rparr>"

definition backwards_state :: SchedulerState where
  "backwards_state =
     resolved_state\<lparr>scheduled_time_str := Some ''3:00 PM - 2:00 PM'',
                    start_dt := None, end_dt := None\<rparr>"

definition three_part_state :: SchedulerState where
  "three_part_state =
     resolved_state\<lparr>scheduled_time_str := Some ''3:00 PM - 4:00 PM - 5:00 PM'',
                    start_dt := None, end_dt := None\<rparr>"

definition no_hyphen_state :: SchedulerState where
  "no_hyphen_state =
     resolved_state\<lparr>scheduled_time_str := Some ''3 PM'', start_dt := None, end_dt := None\<rparr>"

definition trailing_label_reply :: string where
  "trailing_label_reply =
     ''Date: Friday, 28 May 2027'' @ [CHR 0x0A] @ ''Time: 3:00 PM - 3:30 PM'' @ [CHR 0x0A] @
     ''Task:''"

definition trailing_label_state :: SchedulerState where
  "trailing_label_state = (initial_state ''Sync'')\<lparr>output := Some trailing_label_reply\<rparr>"

definition no_time_state :: SchedulerState where
  "no_time_state =
     (initial_state ''Sync'')
       \<lparr>output := Some (''Task: Sync'' @ [CHR 0x0A] @ ''Date: Friday, 28 May 2027'')\<rparr>"

definition urgent_reply :: string where
  "urgent_reply =
     ''Task: Sync'' @ [CHR 0x0A] @ ''Date: Friday, 28 May 2027'' @ [CHR 0x0A] @
     ''Time: 3:00 PM - 3:30 PM'' @ [CHR 0x0A] @ ''Duration: soon'' @ [CHR 0x0A] @
     ''Priority: Urgent  ''"

definition urgent_state :: SchedulerState where
  "urgent_state = (initial_state ''Sync'')\<lparr>output := Some urgent_reply\<rparr>"

definition empty_priority_reply :: string where
  "empty_priority_reply =
     ''Task: Sync'' @ [CHR 0x0A] @ ''Date: Friday, 28 May 2027'' @ [CHR 0x0A] @
     ''Time: 3:00 PM - 3:30 PM'' @ [CHR 0x0A] @ ''Priority:''"

definition empty_priority_state :: SchedulerState where
  "empty_priority_state = (initial_state ''Sync'')\<lparr>output := Some empty_priority_reply\<rparr>"

definition blank_priority_state :: SchedulerState where
  "blank_priority_state =
     (initial_state ''Sync'')
       \<lparr>output := Some (''Task: Sync'' @ [CHR 0x0A] @ ''Priority:'' @ [CHR 0x0A, CHR 0x0A] @
                        ''Scheduled Slot:'' @ [CHR 0x0A] @ '' - Date: Friday, 28 May 2027'' @
                        [CHR 0x0A] @ '' - Time: 3:00 PM - 3:30 PM'')\<rparr>"

section \<open>The single-script variant\<close>

text \<open>
  The second source file, \<^verbatim>\<open>Using_lang_chain/project.py\<close>, runs the same steps in one
  \<^verbatim>\<open>try\<close> block without a state machine: any exception in the block is reported with one
  message and the script stops. Its date is read with the two weekday formats only, the
  yearless date is compared with the clock as a datetime, the range is unpacked without a
  test for \<^verbatim>\<open>" - "\<close>, and a start before the clock is moved whatever its date.
\<close>

datatype lc_error = LcParsingError

record lc_slot =
  lc_task_title :: string
  lc_start_dt :: aware
  lc_end_dt :: aware

definition lc_parse_date :: "datetime \<Rightarrow> string \<Rightarrow> datetime option" where
  "lc_parse_date now scheduled_date =
     (case strptime scheduled_date ''%A, %d %B %Y'' of
        Some date_obj \<Rightarrow> Some date_obj
      | None \<Rightarrow>
          (case strptime scheduled_date ''%A, %d %B'' of
             None \<Rightarrow> None
           | Some date_obj \<Rightarrow>
               (case replace_year date_obj (year now) of
                  None \<Rightarrow> None
                | Some date_obj1 \<Rightarrow>
                    if dt_less date_obj1 now then replace_year date_obj1 (year now + 1)
                    else Some date_obj1)))"

definition lc_resolve :: "env \<Rightarrow> string \<Rightarrow> lc_error + lc_slot" where
  "lc_resolve e out =
     (case (re_search (label_text ''Task:'') out, re_search (label_text ''Date:'') out,
            re_search (label_text ''Time:'') out) of
        (Some t, Some d, Some ti) \<Rightarrow>
          (case (case re_search (label_digits ''Duration:'') out of
                   Some m \<Rightarrow> py_int (group1 m)
                 | None \<Rightarrow> Some 60) of
             None \<Rightarrow> Inl LcParsingError
           | Some duration \<Rightarrow>
             case lc_parse_date (clock_parse e) (strip (group1 d)) of
                None \<Rightarrow> Inl LcParsingError
              | Some date_obj \<Rightarrow>
                  (case map strip (split_on (CHR ''-'') (strip (group1 ti))) of
                     [start_time_part, end_time_part] \<Rightarrow>
                       (case (time_on_date date_obj start_time_part,
                              time_on_date date_obj end_time_part) of
                          (Inr start_dt_naive, Inr end_dt_naive) \<Rightarrow>
                            (case (if dt_less start_dt_naive (clock_local e)
                                   then (case dt_add_minutes (clock_local e) 5 of
                                           None \<Rightarrow> None
                                         | Some start' \<Rightarrow>
                                             map_option (Pair start')
                                               (dt_add_minutes start' duration))
                                   else Some (start_dt_naive, end_dt_naive)) of
                               None \<Rightarrow> Inl LcParsingError
                             | Some (start_dt_local, end_dt_local) \<Rightarrow>
                                 (case (to_utc (local_offset e) start_dt_local,
                                        to_utc (local_offset e) end_dt_local) of
                                    (Inr a, Inr b) \<Rightarrow>
                                      Inr \<lparr>lc_task_title = strip (group1 t), lc_start_dt = a,
                                            lc_end_dt = b\<rparr>
                                  | _ \<Rightarrow> Inl LcParsingError))
                        | _ \<Rightarrow> Inl LcParsingError)
                   | _ \<Rightarrow> Inl LcParsingError))
      | _ \<Rightarrow> Inl LcParsingError)"

definition lc_event :: "string \<Rightarrow> string \<Rightarrow> lc_slot \<Rightarrow> event" where
  "lc_event sentence_text out slot =
     \<lparr>ev_summary = Some (lc_task_title slot),
      ev_start = \<lparr>dateTime = isoformat (lc_start_dt slot), timeZone = ''Asia/Kolkata''\<rparr>,
      ev_end = \<lparr>dateTime = isoformat (lc_end_dt slot), timeZone = ''Asia/Kolkata''\<rparr>,
      ev_description =
        ''Scheduled via AI Scheduler.'' @ [CHR 0x0A, CHR 0x0A] @ ''Request: '' @ [CHR 0x22] @
        sentence_text @ [CHR 0x22, CHR 0x0A] @ ''Output:'' @ [CHR 0x0A] @ out,
      ev_reminders = reminder_policy\<rparr>"

definition yesterday_reply :: string where
  "yesterday_reply =
     ''Task: Sync'' @ [CHR 0x0A] @ ''Date: Wednesday, 19 May 2027'' @ [CHR 0x0A] @
     ''Time: 8:00 AM - 8:30 AM'' @ [CHR 0x0A] @ ''Duration: 30''"

definition no_hyphen_reply :: string where
  "no_hyphen_reply =
     ''Task: Sync'' @ [CHR 0x0A] @ ''Date: Friday, 28 May 2027'' @ [CHR 0x0A] @ ''Time: 3 PM''"

text \<open>
  Replies on which the two programs are run side by side, and a reply whose duration has more
  digits than \<^verbatim>\<open>int\<close> accepts.
\<close>

definition plain_date_reply :: string where
  "plain_date_reply =
     ''Task: Sync'' @ [CHR 0x0A] @ ''Date: 28 May 2027'' @ [CHR 0x0A] @
     ''Time: 3:00 PM - 3:30 PM'' @ [CHR 0x0A] @ ''Duration: 30''"

definition today_reply :: string where
  "today_reply =
     ''Task: Sync'' @ [CHR 0x0A] @ ''Date: Thursday, 20 May'' @ [CHR 0x0A] @
     ''Time: 3:00 PM - 3:30 PM'' @ [CHR 0x0A] @ ''Duration: 30''"

definition replying_env :: "string \<Rightarrow> env" where
  "replying_env reply = example_env\<lparr>llm_invoke := (\<lambda>p. Some reply)\<rparr>"

definition long_duration_reply :: "string \<Rightarrow> string" where
  "long_duration_reply ds =
     ''Task: Sync'' @ [CHR 0x0A] @ ''Date: Friday, 28 May 2027'' @ [CHR 0x0A] @
     ''Time: 3:00 PM - 3:30 PM'' @ [CHR 0x0A] @ ''Duration: '' @ ds"

definition long_duration_state :: SchedulerState where
  "long_duration_state =
     (initial_state ''Sync'')\<lparr>output := Some (long_duration_reply (replicate 4301 (CHR ''1'')))\<rparr>"

section \<open>Once an error is set\<close>

lemma run_error_handler: "run e error_handler s = (s, [], [error_handler])"
  by (simp add: run_node_def handle_error_def next_node_def conditional_edges_def)

lemma run_schedule_error: "error s \<noteq> None \<Longrightarrow> run e schedule s = (s, [], [schedule])"
  by (simp add: run_node_def schedule_event_def next_node_def conditional_edges_def)

lemma run_node_error:
  assumes "error s \<noteq> None" and "n \<noteq> process_ai"
  shows "run_node e n s = (s, [])"
  using assms
  by (cases n)
     (simp_all add: run_node_def parse_ai_response_def parse_datetime_def
        authenticate_google_def create_event_def schedule_event_def handle_error_def)

lemma next_node_error:
  assumes "error s \<noteq> None" and "n \<noteq> schedule" and "n \<noteq> error_handler"
  shows "next_node n s = Some error_handler"
  using assms by (cases n) (simp_all add: next_node_def conditional_edges_def should_continue_def)

lemma run_error:
  assumes "error s \<noteq> None" and "n \<noteq> process_ai" and "n \<noteq> schedule" and "n \<noteq> error_handler"
  shows "run e n s = (s, [], [n, error_handler])"
proof -
  have "run_node e n s = (s, [])" using assms by (simp add: run_node_error)
  moreover have "next_node n s = Some error_handler" using assms by (simp add: next_node_error)
  ultimately show ?thesis by (simp add: run_error_handler del: run.simps add: run.simps [of e n s])
qed

text \<open>
  C2 fails at the last stage: the five earlier nodes have the conditional edge that leads to
  the error handler, but \<^verbatim>\<open>schedule\<close> has an unconditional edge to \<^verbatim>\<open>END\<close>, so a run
  whose insert is refused ends with the error set and never visits the error handler.
\<close>

theorem schedule_error_skips_handler:
  "error (fst (invoke refusing_env ''Sync'')) = Some FailedToCreateEvent \<and>
   snd (snd (invoke refusing_env ''Sync'')) =
     [process_ai, parse_response, parse_datetime_node, authenticate, create_event_node, schedule] \<and>
   next_node schedule (fst (invoke refusing_env ''Sync'')) = None"
  by code_simp

text \<open>
  What does hold once an error is set: each of \<^verbatim>\<open>parse_ai_response\<close>,
  \<^verbatim>\<open>parse_datetime\<close>, \<^verbatim>\<open>authenticate_google\<close>, \<^verbatim>\<open>create_event\<close> and
  \<^verbatim>\<open>schedule_event\<close> returns the state as it is and makes no outside call (so the title,
  the start and the end are not altered and the calendar's insert is not invoked); the next
  transition from \<^verbatim>\<open>process_ai\<close>, \<^verbatim>\<open>parse_response\<close>, \<^verbatim>\<open>parse_datetime\<close>,
  \<^verbatim>\<open>authenticate\<close> and \<^verbatim>\<open>create_event\<close> goes to the error handler, and a run entered
  at one of the last four with an error set visits that node and the error handler only.
\<close>

theorem error_short_circuit:
  assumes "error s = Some err"
  shows "parse_ai_response s = s \<and> parse_datetime e s = s \<and>
         authenticate_google e s = (s, []) \<and> create_event s = s \<and>
         schedule_event e s = (s, []) \<and>
         (\<forall>n \<in> {process_ai, parse_response, parse_datetime_node, authenticate, create_event_node}.
            next_node n s = Some error_handler) \<and>
         (\<forall>n \<in> {parse_response, parse_datetime_node, authenticate, create_event_node}.
            run e n s = (s, [], [n, error_handler]))"
proof -
  have err: "error s \<noteq> None" using assms by simp
  have a: "parse_ai_response s = s" using err by (simp add: parse_ai_response_def)
  have b: "parse_datetime e s = s" using err by (simp add: parse_datetime_def)
  have c: "authenticate_google e s = (s, [])" using err by (simp add: authenticate_google_def)
  have d: "create_event s = s" using err by (simp add: create_event_def)
  have f: "schedule_event e s = (s, [])" using err by (simp add: schedule_event_def)
  have g: "\<forall>n \<in> {process_ai, parse_response, parse_datetime_node, authenticate,
                   create_event_node}. next_node n s = Some error_handler"
    using err by (simp add: next_node_error)
  have h: "\<forall>n \<in> {parse_response, parse_datetime_node, authenticate, create_event_node}.
             run e n s = (s, [], [n, error_handler])"
    using err by (simp add: run_error del: run.simps)
  from a b c d f g h show ?thesis by blast
qed

theorem error_short_circuit_witness:
  "error failed_state = Some GettingAIResponse \<and>
   parse_datetime example_env failed_state = failed_state \<and>
   schedule_event example_env failed_state = (failed_state, []) \<and>
   next_node create_event_node failed_state = Some error_handler \<and>
   run example_env parse_response failed_state =
     (failed_state, [], [parse_response, error_handler])"
proof -
  have h: "error failed_state = Some GettingAIResponse"
    by (simp add: failed_state_def initial_state_def)
  show ?thesis using h error_short_circuit [OF h, of example_env] by simp
qed

section \<open>The event that is built\<close>

lemma contains_append: "contains sub (pre @ sub @ post)"
proof (induction pre)
  case Nil
  show ?case
  proof (cases "sub @ post")
    case Nil
    then show ?thesis by simp
  next
    case (Cons a list)
    have "take (length sub) (sub @ post) = sub" by simp
    with Cons show ?thesis by simp
  qed
next
  case (Cons c pre)
  then show ?case by simp
qed

text \<open>
  C9: for a state without error that carries the resolved start and end, \<^verbatim>\<open>create_event\<close>
  stores an event whose summary is the extracted title, whose start and end are the ISO-8601
  texts of the two instants with the fixed zone name \<^verbatim>\<open>Asia/Kolkata\<close>, whose description
  contains the request sentence and the raw reply, and whose reminders are exactly an email
  reminder at 1440 minutes and a popup reminder at 10 minutes with the defaults switched off;
  it sets no error, changes nothing else and makes no outside call.
\<close>

theorem create_event_payload:
  assumes "error s = None" and "start_dt s = Some a" and "end_dt s = Some b"
    and "task_title s = Some title" and "output s = Some reply"
  shows "\<exists>ev. create_event s = s\<lparr>event := Some ev\<rparr> \<and>
           ev_summary ev = Some title \<and>
           ev_start ev = \<lparr>dateTime = isoformat a, timeZone = ''Asia/Kolkata''\<rparr> \<and>
           ev_end ev = \<lparr>dateTime = isoformat b, timeZone = ''Asia/Kolkata''\<rparr> \<and>
           contains (sentence s) (ev_description ev) \<and>
           contains reply (ev_description ev) \<and>
           ev_reminders ev =
             \<lparr>useDefault = False,
              overrides = [\<lparr>method_name = ''email'', minutes = 1440\<rparr>,
                           \<lparr>method_name = ''popup'', minutes = 10\<rparr>]\<rparr> \<and>
           run_node e create_event_node s = (s\<lparr>event := Some ev\<rparr>, [])"
proof -
  let ?d = "event_description (sentence s) (output s)"
  let ?ev = "\<lparr>ev_summary = task_title s,
              ev_start = \<lparr>dateTime = isoformat a, timeZone = ''Asia/Kolkata''\<rparr>,
              ev_end = \<lparr>dateTime = isoformat b, timeZone = ''Asia/Kolkata''\<rparr>,
              ev_description = ?d, ev_reminders = reminder_policy\<rparr>"
  have ce: "create_event s = s\<lparr>event := Some ?ev\<rparr>"
    using assms by (simp add: create_event_def)
  have "?d = (''Scheduled via AI Scheduler.'' @ [CHR 0x0A, CHR 0x0A] @ ''Original Request: '' @
              [CHR 0x22]) @ sentence s @ ([CHR 0x22, CHR 0x0A, CHR 0x0A] @ ''AI Analysis:'' @
              [CHR 0x0A] @ fstr (output s))"
    by (simp add: event_description_def)
  then have c1: "contains (sentence s) ?d" by (simp only: contains_append)
  have "?d = (''Scheduled via AI Scheduler.'' @ [CHR 0x0A, CHR 0x0A] @ ''Original Request: '' @
              [CHR 0x22] @ sentence s @ [CHR 0x22, CHR 0x0A, CHR 0x0A] @ ''AI Analysis:'' @
              [CHR 0x0A]) @ reply @ []"
    using assms by (simp add: event_description_def fstr_def)
  then have c2: "contains reply ?d" by (simp only: contains_append)
  have rn: "run_node e create_event_node s = (s\<lparr>event := Some ?ev\<rparr>, [])"
    using ce by (simp add: run_node_def)
  have rp: "ev_reminders ?ev =
              \<lparr>useDefault = False,
               overrides = [\<lparr>method_name = ''email'', minutes = 1440\<rparr>,
                            \<lparr>method_name = ''popup'', minutes = 10\<rparr>]\<rparr>"
    by (simp add: reminder_policy_def)
  have sm: "ev_summary ?ev = Some title" using assms by simp
  show ?thesis
    apply (rule exI [of _ ?ev])
    using ce c1 c2 rn rp sm by simp
qed


theorem create_event_payload_witness:
  "error resolved_state = None \<and>
   ev_summary (the (event (create_event resolved_state))) = Some ''Sync'' \<and>
   ev_start (the (event (create_event resolved_state))) =
     \<lparr>dateTime = ''2027-05-28T09:30:00+00:00'', timeZone = ''Asia/Kolkata''\<rparr> \<and>
   ev_end (the (event (create_event resolved_state))) =
     \<lparr>dateTime = ''2027-05-28T10:00:00+00:00'', timeZone = ''Asia/Kolkata''\<rparr> \<and>
   contains ''Sync'' (ev_description (the (event (create_event resolved_state)))) \<and>
   contains example_reply (ev_description (the (event (create_event resolved_state)))) \<and>
   snd (run_node example_env create_event_node resolved_state) = []"
proof -
  let ?a = "\<lparr>naive = \<lparr>year = 2027, month = 5, day = 28, hour = 9, minute = 30,
                          second = 0, microsecond = 0\<rparr>, utcoffset = 0\<rparr>"
  let ?b = "\<lparr>naive = \<lparr>year = 2027, month = 5, day = 28, hour = 10, minute = 0,
                          second = 0, microsecond = 0\<rparr>, utcoffset = 0\<rparr>"
  have h1: "error resolved_state = None" by (simp add: resolved_state_def initial_state_def)
  have h2: "start_dt resolved_state = Some ?a" by (simp add: resolved_state_def)
  have h3: "end_dt resolved_state = Some ?b" by (simp add: resolved_state_def)
  have h4: "task_title resolved_state = Some ''Sync''" by (simp add: resolved_state_def)
  have h5: "output resolved_state = Some example_reply" by (simp add: resolved_state_def)
  have h6: "sentence resolved_state = ''Sync''" by (simp add: resolved_state_def initial_state_def)
  have i1: "isoformat ?a = ''2027-05-28T09:30:00+00:00''" by code_simp
  have i2: "isoformat ?b = ''2027-05-28T10:00:00+00:00''" by code_simp
  from create_event_payload [OF h1 h2 h3 h4 h5, of example_env]
  obtain ev where ev: "create_event resolved_state = resolved_state\<lparr>event := Some ev\<rparr>"
      "ev_summary ev = Some ''Sync''"
      "ev_start ev = \<lparr>dateTime = isoformat ?a, timeZone = ''Asia/Kolkata''\<rparr>"
      "ev_end ev = \<lparr>dateTime = isoformat ?b, timeZone = ''Asia/Kolkata''\<rparr>"
      "contains (sentence resolved_state) (ev_description ev)"
      "contains example_reply (ev_description ev)"
      "run_node example_env create_event_node resolved_state =
         (resolved_state\<lparr>event := Some ev\<rparr>, [])"
    by blast
  have "the (event (create_event resolved_state)) = ev" using ev(1) by simp
  then show ?thesis using h1 h6 ev i1 i2 by simp
qed

section \<open>Reading the date\<close>

lemma try_formats_first:
  assumes "\<forall>f \<in> set pre. try_format now txt f = None" and "try_format now txt fmt = Some d"
  shows "try_formats now txt (pre @ fmt # post) = Some d"
  using assms by (induction pre) simp_all

lemma try_formats_none:
  "(try_formats now txt fs = None) = (\<forall>f \<in> set fs. try_format now txt f = None)"
  by (induction fs) (auto split: option.splits)

lemma try_formats_some:
  assumes "try_formats now txt fs = Some d"
  shows "\<exists>pre fmt post. fs = pre @ fmt # post \<and> (\<forall>f \<in> set pre. try_format now txt f = None) \<and>
           try_format now txt fmt = Some d"
  using assms
proof (induction fs)
  case Nil
  then show ?case by simp
next
  case (Cons f fs)
  show ?case
  proof (cases "try_format now txt f")
    case None
    with Cons.prems have "try_formats now txt fs = Some d" by simp
    from Cons.IH [OF this] obtain pre fmt post where
      "fs = pre @ fmt # post" "\<forall>f \<in> set pre. try_format now txt f = None"
      "try_format now txt fmt = Some d" by blast
    with None have "f # fs = (f # pre) @ fmt # post \<and>
        (\<forall>g \<in> set (f # pre). try_format now txt g = None) \<and> try_format now txt fmt = Some d"
      by simp
    then show ?thesis by blast
  next
    case (Some a)
    with Cons.prems have "a = d" by simp
    with Some have "f # fs = [] @ f # fs \<and> (\<forall>g \<in> set []. try_format now txt g = None) \<and>
        try_format now txt f = Some d" by simp
    then show ?thesis by blast
  qed
qed

text \<open>
  In the state-machine pipeline the date is read as C4 says: the formats are the seven of
  the source in its order; the answer of
  \<^verbatim>\<open>parse_flexible_date\<close> is the result of the first format in the list whose \<^verbatim>\<open>try\<close>
  block ends without \<^verbatim>\<open>ValueError\<close>, whatever the later formats would give, and it is
  always such a first result; when every format fails the answer is \<^verbatim>\<open>None\<close> and
  \<^verbatim>\<open>parse_datetime\<close> records the could-not-parse-date error.
\<close>

theorem first_match_wins:
  "formats = [''%A, %d %B %Y'', ''%A, %d %B'', ''%d %B %Y'', ''%B %d, %Y'', ''%m/%d/%Y'',
              ''%Y-%m-%d'', ''%d-%m-%Y''] \<and>
   (formats = pre @ fmt # post \<and> (\<forall>f \<in> set pre. try_format now txt f = None) \<and>
      try_format now txt fmt = Some d \<longrightarrow> parse_flexible_date now txt = Some d) \<and>
   (parse_flexible_date now txt = Some d' \<longrightarrow>
      (\<exists>pre' fmt' post'. formats = pre' @ fmt' # post' \<and>
         (\<forall>f \<in> set pre'. try_format now txt f = None) \<and> try_format now txt fmt' = Some d')) \<and>
   ((\<forall>f \<in> set formats. try_format now txt f = None) \<longrightarrow> parse_flexible_date now txt = None) \<and>
   (error s = None \<and> scheduled_date_str s = Some txt \<and>
      parse_flexible_date (clock_parse e) txt = None \<longrightarrow>
      parse_datetime e s = s\<lparr>error := Some (DateTimeParsing (CouldNotParseDate txt))\<rparr>)"
proof -
  have a: "formats = [''%A, %d %B %Y'', ''%A, %d %B'', ''%d %B %Y'', ''%B %d, %Y'', ''%m/%d/%Y'',
              ''%Y-%m-%d'', ''%d-%m-%Y'']" by (simp add: formats_def)
  have b: "formats = pre @ fmt # post \<and> (\<forall>f \<in> set pre. try_format now txt f = None) \<and>
      try_format now txt fmt = Some d \<longrightarrow> parse_flexible_date now txt = Some d"
  proof (intro impI, elim conjE)
    assume f: "formats = pre @ fmt # post"
      and n: "\<forall>f \<in> set pre. try_format now txt f = None"
      and m: "try_format now txt fmt = Some d"
    from n m have "try_formats now txt (pre @ fmt # post) = Some d" by (rule try_formats_first)
    then show "parse_flexible_date now txt = Some d" by (simp add: parse_flexible_date_def f)
  qed
  have c: "parse_flexible_date now txt = Some d' \<longrightarrow>
      (\<exists>pre' fmt' post'. formats = pre' @ fmt' # post' \<and>
         (\<forall>f \<in> set pre'. try_format now txt f = None) \<and> try_format now txt fmt' = Some d')"
  proof
    assume "parse_flexible_date now txt = Some d'"
    then have "try_formats now txt formats = Some d'" by (simp add: parse_flexible_date_def)
    then show "\<exists>pre' fmt' post'. formats = pre' @ fmt' # post' \<and>
         (\<forall>f \<in> set pre'. try_format now txt f = None) \<and> try_format now txt fmt' = Some d'"
      by (rule try_formats_some)
  qed
  have d: "(\<forall>f \<in> set formats. try_format now txt f = None) \<longrightarrow> parse_flexible_date now txt = None"
    by (simp add: parse_flexible_date_def try_formats_none)
  have e: "error s = None \<and> scheduled_date_str s = Some txt \<and>
      parse_flexible_date (clock_parse e) txt = None \<longrightarrow>
      parse_datetime e s = s\<lparr>error := Some (DateTimeParsing (CouldNotParseDate txt))\<rparr>"
    by (simp add: parse_datetime_def resolve_slot_def parse_range_def)
  from a b c d e show ?thesis by blast
qed

theorem first_match_wins_witness:
  "map (try_format example_now ''28-05-2027'')
     [''%A, %d %B %Y'', ''%A, %d %B'', ''%d %B %Y'', ''%B %d, %Y'', ''%m/%d/%Y'', ''%Y-%m-%d''] =
     [None, None, None, None, None, None] \<and>
   parse_flexible_date example_now ''28-05-2027'' =
     Some \<lparr>year = 2027, month = 5, day = 28, hour = 0, minute = 0, second = 0, microsecond = 0\<rparr> \<and>
   map (try_format example_now ''next Friday'') formats =
     [None, None, None, None, None, None, None] \<and>
   parse_flexible_date example_now ''next Friday'' = None \<and>
   parse_datetime example_env undated_state =
     undated_state\<lparr>error := Some (DateTimeParsing (CouldNotParseDate ''next Friday''))\<rparr>"
proof -
  let ?pre = "[''%A, %d %B %Y'', ''%A, %d %B'', ''%d %B %Y'', ''%B %d, %Y'', ''%m/%d/%Y'',
              ''%Y-%m-%d'']"
  let ?d = "\<lparr>year = 2027, month = 5, day = 28, hour = 0, minute = 0, second = 0, microsecond = 0\<rparr>"
  have h1: "formats = ?pre @ ''%d-%m-%Y'' # []" by (simp add: formats_def)
  have m2: "map (try_format example_now ''28-05-2027'') ?pre = [None, None, None, None, None, None]"
    by code_simp
  then have h2: "\<forall>f \<in> set ?pre. try_format example_now ''28-05-2027'' f = None" by simp
  have h3: "try_format example_now ''28-05-2027'' ''%d-%m-%Y'' = Some ?d" by code_simp
  have m4: "map (try_format example_now ''next Friday'') formats =
              [None, None, None, None, None, None, None]"
    by code_simp
  then have h4: "\<forall>f \<in> set formats. try_format example_now ''next Friday'' f = None"
    by (simp add: formats_def)
  have h5: "error undated_state = None" by code_simp
  have h6: "scheduled_date_str undated_state = Some ''next Friday''" by (simp add: undated_state_def)
  have h7: "clock_parse example_env = example_now" by (simp add: example_env_def)
  note t1 = first_match_wins [of ?pre "''%d-%m-%Y''" "[]" example_now "''28-05-2027''" ?d]
  note t2 = first_match_wins [of _ _ _ example_now "''next Friday''" _ _ undated_state example_env]
  from t1 h1 h2 h3 have r1: "parse_flexible_date example_now ''28-05-2027'' = Some ?d" by blast
  from t2 h4 have r2: "parse_flexible_date example_now ''next Friday'' = None" by blast
  from t2 r2 h5 h6 h7 have r3: "parse_datetime example_env undated_state =
     undated_state\<lparr>error := Some (DateTimeParsing (CouldNotParseDate ''next Friday''))\<rparr>"
    by simp
  from m2 m4 r1 r2 r3 show ?thesis by blast
qed

section \<open>Adding minutes moves forward\<close>

lemma ymd_less_next_day: "ymd_less p (next_day p)"
  by (cases p) (simp add: ymd_less_def)

lemma ymd_less_trans: "ymd_less p q \<Longrightarrow> ymd_less q r \<Longrightarrow> ymd_less p r"
  by (cases p; cases q; cases r) (auto simp: ymd_less_def)

lemma ymd_less_funpow: "0 < n \<Longrightarrow> ymd_less p ((next_day ^^ n) p)"
proof (induction n)
  case 0
  then show ?case by simp
next
  case (Suc n)
  show ?case
  proof (cases "n = 0")
    case True
    then show ?thesis by (simp add: ymd_less_next_day)
  next
    case False
    with Suc.IH have "ymd_less p ((next_day ^^ n) p)" by simp
    moreover have "ymd_less ((next_day ^^ n) p) (next_day ((next_day ^^ n) p))"
      by (rule ymd_less_next_day)
    ultimately show ?thesis by (auto intro: ymd_less_trans)
  qed
qed

lemma clock_order:
  fixes h mi m :: int
  assumes "0 \<le> mi" and "mi < 60" and "0 \<le> m"
  shows "h \<le> (h * 60 + mi + m) div 60"
    and "(h * 60 + mi + m) div 60 = h \<Longrightarrow> mi \<le> (h * 60 + mi + m) mod 60"
    and "0 < m \<Longrightarrow> (h * 60 + mi + m) div 60 = h \<Longrightarrow> mi < (h * 60 + mi + m) mod 60"
proof -
  have d: "(h * 60 + mi + m) div 60 = (mi + m) div 60 + h"
    using div_mult_self1 [of 60 "mi + m" h] by (simp add: algebra_simps)
  have mo: "(h * 60 + mi + m) mod 60 = (mi + m) mod 60"
    using mod_mult_self1 [of "mi + m" h 60] by (simp add: algebra_simps)
  have nn: "0 \<le> (mi + m) div 60" using assms by (simp add: pos_imp_zdiv_nonneg_iff)
  have split: "mi + m = 60 * ((mi + m) div 60) + (mi + m) mod 60" by simp
  show "h \<le> (h * 60 + mi + m) div 60" using d nn by simp
  show "mi \<le> (h * 60 + mi + m) mod 60" if "(h * 60 + mi + m) div 60 = h"
  proof -
    from that d have "(mi + m) div 60 = 0" by simp
    with split have "(mi + m) mod 60 = mi + m" by simp
    with mo assms show ?thesis by simp
  qed
  show "mi < (h * 60 + mi + m) mod 60" if "0 < m" "(h * 60 + mi + m) div 60 = h"
  proof -
    from that d have "(mi + m) div 60 = 0" by simp
    with split have "(mi + m) mod 60 = mi + m" by simp
    with mo that show ?thesis by simp
  qed
qed

lemma dt_add_minutes_forward:
  assumes add: "dt_add_minutes x m = Some y"
    and h: "0 \<le> hour x" and mi: "0 \<le> minute x" "minute x < 60" and m: "0 \<le> m"
  shows "\<not> dt_less y x" and "0 < m \<Longrightarrow> dt_less x y"
proof -
  let ?total = "hour x * 60 + minute x + m"
  let ?dd = "?total div 1440"
  let ?r = "?total mod 1440"
  obtain y' mo' d' where sh: "shift_days (year x, month x, day x) ?dd = (y', mo', d')"
    by (cases "shift_days (year x, month x, day x) ?dd") auto
  from add sh have yeq: "y = x\<lparr>year := y', month := mo', day := d', hour := ?r div 60,
                               minute := ?r mod 60\<rparr>"
    by (auto simp: dt_add_minutes_def Let_def split: if_splits)
  have tot: "0 \<le> ?total" using h mi m by simp
  then have dd0: "0 \<le> ?dd" by simp
  show "\<not> dt_less y x"
  proof (cases "?dd = 0")
    case True
    then have "(y', mo', d') = (year x, month x, day x)" using sh by (simp add: shift_days_def)
    moreover from True tot have "?r = ?total" by (simp add: zmod_trivial_iff) 
    ultimately show ?thesis
      using yeq h mi m clock_order(1,2) [of "minute x" m "hour x"]
      by (auto simp: dt_less_def dt_key_def)
  next
    case False
    with dd0 have "0 < nat ?dd" by simp
    then have "ymd_less (year x, month x, day x) ((next_day ^^ nat ?dd) (year x, month x, day x))"
      by (rule ymd_less_funpow)
    with sh dd0 have "ymd_less (year x, month x, day x) (y', mo', d')"
      by (simp add: shift_days_def)
    then show ?thesis using yeq by (auto simp: dt_less_def dt_key_def ymd_less_def)
  qed
  show "dt_less x y" if "0 < m"
  proof (cases "?dd = 0")
    case True
    then have "(y', mo', d') = (year x, month x, day x)" using sh by (simp add: shift_days_def)
    moreover from True tot have "?r = ?total" by (simp add: zmod_trivial_iff)
    ultimately show ?thesis
      using yeq h mi that clock_order(1,3) [of "minute x" m "hour x"]
      by (auto simp: dt_less_def dt_key_def)
  next
    case False
    with dd0 have "0 < nat ?dd" by simp
    then have "ymd_less (year x, month x, day x) ((next_day ^^ nat ?dd) (year x, month x, day x))"
      by (rule ymd_less_funpow)
    with sh dd0 have "ymd_less (year x, month x, day x) (y', mo', d')"
      by (simp add: shift_days_def)
    then show ?thesis using yeq by (auto simp: dt_less_def dt_key_def ymd_less_def)
  qed
qed

section \<open>The past-time correction\<close>

lemma parse_datetime_resolved:
  assumes "error s = None" and "resolve_slot e s = Inr (su, eu)"
  shows "parse_datetime e s = s\<lparr>start_dt := Some su, end_dt := Some eu\<rparr>"
  using assms by (simp add: parse_datetime_def)

lemma parse_datetime_failed:
  assumes "error s = None" and "resolve_slot e s = Inl err"
  shows "parse_datetime e s = s\<lparr>error := Some err\<rparr>"
  using assms by (simp add: parse_datetime_def)

lemma parse_datetime_cases:
  assumes "error s = None"
  shows "(error (parse_datetime e s) = None) = (\<exists>su eu. resolve_slot e s = Inr (su, eu))"
  using assms by (cases "resolve_slot e s") (auto simp: parse_datetime_def)

text \<open>
  In the state-machine pipeline a past start is treated as C1 says: when the start read from
  the reply is strictly before the clock reading, then, if it is
  on the clock's date, the start becomes the clock reading plus five minutes and the end that
  start plus \<open>duration_minutes\<close> (the end read from the reply plays no part), both stored in
  UTC, and every slot that is produced in this case has that form; if it is on another date,
  \<^verbatim>\<open>parse_datetime\<close> records the past-date error and stores no start and no end.
\<close>

theorem past_time_rule:
  assumes "error s = None" and "parse_range e s = Inr (st, en)"
    and "dt_less st (clock_local e)"
  shows "(same_date st (clock_local e) \<and> dt_add_minutes (clock_local e) 5 = Some st' \<and>
            duration_minutes s = Some m \<and> dt_add_minutes st' m = Some en' \<and>
            astimezone 0 \<lparr>naive = st', utcoffset = local_offset e\<rparr> = Some su \<and>
            astimezone 0 \<lparr>naive = en', utcoffset = local_offset e\<rparr> = Some eu \<longrightarrow>
            parse_datetime e s = s\<lparr>start_dt := Some su, end_dt := Some eu\<rparr>) \<and>
         (same_date st (clock_local e) \<and> error (parse_datetime e s) = None \<longrightarrow>
            (\<exists>st'' m'' en''. dt_add_minutes (clock_local e) 5 = Some st'' \<and>
               duration_minutes s = Some m'' \<and> dt_add_minutes st'' m'' = Some en'' \<and>
               start_dt (parse_datetime e s) =
                 astimezone 0 \<lparr>naive = st'', utcoffset = local_offset e\<rparr> \<and>
               end_dt (parse_datetime e s) =
                 astimezone 0 \<lparr>naive = en'', utcoffset = local_offset e\<rparr>)) \<and>
         (\<not> same_date st (clock_local e) \<longrightarrow>
            parse_datetime e s = s\<lparr>error := Some (DateTimeParsing (PastDate st))\<rparr>)"
proof -
  have a: "same_date st (clock_local e) \<and> dt_add_minutes (clock_local e) 5 = Some st' \<and>
            duration_minutes s = Some m \<and> dt_add_minutes st' m = Some en' \<and>
            astimezone 0 \<lparr>naive = st', utcoffset = local_offset e\<rparr> = Some su \<and>
            astimezone 0 \<lparr>naive = en', utcoffset = local_offset e\<rparr> = Some eu \<longrightarrow>
            parse_datetime e s = s\<lparr>start_dt := Some su, end_dt := Some eu\<rparr>"
    using assms
    by (simp add: parse_datetime_def resolve_slot_def past_time_correction_def to_utc_def)
  have b: "same_date st (clock_local e) \<and> error (parse_datetime e s) = None \<longrightarrow>
            (\<exists>st'' m'' en''. dt_add_minutes (clock_local e) 5 = Some st'' \<and>
               duration_minutes s = Some m'' \<and> dt_add_minutes st'' m'' = Some en'' \<and>
               start_dt (parse_datetime e s) =
                 astimezone 0 \<lparr>naive = st'', utcoffset = local_offset e\<rparr> \<and>
               end_dt (parse_datetime e s) =
                 astimezone 0 \<lparr>naive = en'', utcoffset = local_offset e\<rparr>)"
    using assms
    by (auto simp: parse_datetime_def resolve_slot_def past_time_correction_def to_utc_def
          split: option.splits)
  have c: "\<not> same_date st (clock_local e) \<longrightarrow>
            parse_datetime e s = s\<lparr>error := Some (DateTimeParsing (PastDate st))\<rparr>"
    using assms
    by (simp add: parse_datetime_def resolve_slot_def past_time_correction_def)
  from a b c show ?thesis by blast
qed


theorem past_time_rule_witness:
  "parse_range example_env same_day_past_state =
     Inr (\<lparr>year = 2027, month = 5, day = 20, hour = 8, minute = 0, second = 0, microsecond = 0\<rparr>,
          \<lparr>year = 2027, month = 5, day = 20, hour = 8, minute = 30, second = 0, microsecond = 0\<rparr>) \<and>
   dt_less \<lparr>year = 2027, month = 5, day = 20, hour = 8, minute = 0, second = 0, microsecond = 0\<rparr>
     (clock_local example_env) \<and>
   parse_datetime example_env same_day_past_state =
     same_day_past_state
       \<lparr>start_dt := Some \<lparr>naive = \<lparr>year = 2027, month = 5, day = 20, hour = 4, minute = 5,
                                     second = 7, microsecond = 12\<rparr>, utcoffset = 0\<rparr>,
        end_dt := Some \<lparr>naive = \<lparr>year = 2027, month = 5, day = 20, hour = 4, minute = 35,
                                   second = 7, microsecond = 12\<rparr>, utcoffset = 0\<rparr>\<rparr> \<and>
   parse_datetime example_env other_day_past_state =
     other_day_past_state
       \<lparr>error := Some (DateTimeParsing (PastDate
          \<lparr>year = 2027, month = 5, day = 19, hour = 8, minute = 0, second = 0,
             microsecond = 0\<rparr>))\<rparr>"
proof -
  let ?st = "\<lparr>year = 2027, month = 5, day = 20, hour = 8, minute = 0, second = 0, microsecond = 0\<rparr>"
  let ?en = "\<lparr>year = 2027, month = 5, day = 20, hour = 8, minute = 30, second = 0, microsecond = 0\<rparr>"
  let ?st' = "\<lparr>year = 2027, month = 5, day = 20, hour = 9, minute = 35, second = 7, microsecond = 12\<rparr>"
  let ?en' = "\<lparr>year = 2027, month = 5, day = 20, hour = 10, minute = 5, second = 7, microsecond = 12\<rparr>"
  let ?su = "\<lparr>naive = \<lparr>year = 2027, month = 5, day = 20, hour = 4, minute = 5,
                           second = 7, microsecond = 12\<rparr>, utcoffset = 0\<rparr>"
  let ?eu = "\<lparr>naive = \<lparr>year = 2027, month = 5, day = 20, hour = 4, minute = 35,
                           second = 7, microsecond = 12\<rparr>, utcoffset = 0\<rparr>"
  let ?ot = "\<lparr>year = 2027, month = 5, day = 19, hour = 8, minute = 0, second = 0, microsecond = 0\<rparr>"
  let ?oe = "\<lparr>year = 2027, month = 5, day = 19, hour = 8, minute = 30, second = 0, microsecond = 0\<rparr>"
  have h1: "error same_day_past_state = None" by code_simp
  have h2: "parse_range example_env same_day_past_state = Inr (?st, ?en)" by code_simp
  have h3: "dt_less ?st (clock_local example_env)" by code_simp
  have h4: "same_date ?st (clock_local example_env)" by code_simp
  have h5: "dt_add_minutes (clock_local example_env) 5 = Some ?st'" by code_simp
  have h6: "duration_minutes same_day_past_state = Some 30" by code_simp
  have h7: "dt_add_minutes ?st' 30 = Some ?en'" by code_simp
  have h8: "astimezone 0 \<lparr>naive = ?st', utcoffset = local_offset example_env\<rparr> = Some ?su"
    by code_simp
  have h9: "astimezone 0 \<lparr>naive = ?en', utcoffset = local_offset example_env\<rparr> = Some ?eu"
    by code_simp
  have g1: "error other_day_past_state = None" by code_simp
  have g2: "parse_range example_env other_day_past_state = Inr (?ot, ?oe)" by code_simp
  have g3: "dt_less ?ot (clock_local example_env)" by code_simp
  have g4: "\<not> same_date ?ot (clock_local example_env)" by code_simp
  from past_time_rule [OF h1 h2 h3, of ?st' 30 ?en' ?su ?eu] h4 h5 h6 h7 h8 h9
  have r1: "parse_datetime example_env same_day_past_state =
              same_day_past_state\<lparr>start_dt := Some ?su, end_dt := Some ?eu\<rparr>"
    by blast
  from past_time_rule [OF g1 g2 g3] g4
  have r2: "parse_datetime example_env other_day_past_state =
              other_day_past_state\<lparr>error := Some (DateTimeParsing (PastDate ?ot))\<rparr>"
    by blast
  from h2 h3 r1 r2 show ?thesis by blast
qed

section \<open>What holds of every slot\<close>

text \<open>
  C3, as stated, fails: the two ends of the range are taken as the reply gives them, so a
  reply whose range runs backwards gives a slot whose end is before its start, and the
  distance between them is not the duration.
\<close>

theorem backwards_range_accepted:
  "error (parse_datetime example_env backwards_state) = None \<and>
   duration_minutes (parse_datetime example_env backwards_state) = Some 30 \<and>
   start_dt (parse_datetime example_env backwards_state) =
     Some \<lparr>naive = \<lparr>year = 2027, month = 5, day = 28, hour = 9, minute = 30, second = 0,
                       microsecond = 0\<rparr>, utcoffset = 0\<rparr> \<and>
   end_dt (parse_datetime example_env backwards_state) =
     Some \<lparr>naive = \<lparr>year = 2027, month = 5, day = 28, hour = 8, minute = 30, second = 0,
                       microsecond = 0\<rparr>, utcoffset = 0\<rparr> \<and>
   dt_less (naive (the (end_dt (parse_datetime example_env backwards_state))))
           (naive (the (start_dt (parse_datetime example_env backwards_state)))) \<and>
   dt_add_minutes (naive (the (start_dt (parse_datetime example_env backwards_state)))) 30 \<noteq>
     Some (naive (the (end_dt (parse_datetime example_env backwards_state))))"
  by code_simp

text \<open>
  C3 (amended): every slot that \<^verbatim>\<open>parse_datetime\<close> stores is the UTC form of a local start
  and a local end, and the local start is not strictly before the clock reading. When the
  correction fired, the start is the clock reading plus five minutes and the end is that
  start plus \<open>duration_minutes\<close>, so the end is not before the start and is after it when
  the duration is positive. When it did not fire, start and end are the two times of the
  reply on the resolved date, in whatever order and at whatever distance the reply gives.
\<close>

theorem slot_invariant:
  assumes "error s = None" and "valid_datetime (clock_local e)"
    and "error (parse_datetime e s) = None"
  shows "\<exists>st en sl el.
           parse_range e s = Inr (st, en) \<and>
           start_dt (parse_datetime e s) = astimezone 0 \<lparr>naive = sl, utcoffset = local_offset e\<rparr> \<and>
           end_dt (parse_datetime e s) = astimezone 0 \<lparr>naive = el, utcoffset = local_offset e\<rparr> \<and>
           start_dt (parse_datetime e s) \<noteq> None \<and> end_dt (parse_datetime e s) \<noteq> None \<and>
           \<not> dt_less sl (clock_local e) \<and>
           (if dt_less st (clock_local e)
            then dt_add_minutes (clock_local e) 5 = Some sl \<and>
                 (\<exists>m. duration_minutes s = Some m \<and> dt_add_minutes sl m = Some el \<and>
                      (0 \<le> m \<longrightarrow> \<not> dt_less el sl) \<and> (0 < m \<longrightarrow> dt_less sl el))
            else sl = st \<and> el = en)"
proof -
  from assms(1,3) obtain su eu where rs: "resolve_slot e s = Inr (su, eu)"
    by (auto simp: parse_datetime_cases)
  then obtain st en where pr: "parse_range e s = Inr (st, en)"
    by (cases "parse_range e s") (auto simp: resolve_slot_def)
  from rs pr obtain sl el where
    pc: "past_time_correction (clock_local e) (duration_minutes s) st en = Inr (sl, el)"
    by (cases "past_time_correction (clock_local e) (duration_minutes s) st en")
       (auto simp: resolve_slot_def)
  from rs pr pc have us: "astimezone 0 \<lparr>naive = sl, utcoffset = local_offset e\<rparr> = Some su"
    and ue: "astimezone 0 \<lparr>naive = el, utcoffset = local_offset e\<rparr> = Some eu"
    by (auto simp: resolve_slot_def to_utc_def split: option.splits sum.splits)
  from assms(1) rs have pd: "parse_datetime e s = s\<lparr>start_dt := Some su, end_dt := Some eu\<rparr>"
    by (rule parse_datetime_resolved)
  have now: "0 \<le> hour (clock_local e)" "0 \<le> minute (clock_local e)" "minute (clock_local e) < 60"
    using assms(2) by (simp_all add: valid_datetime_def)
  show ?thesis
  proof (cases "dt_less st (clock_local e)")
    case True
    with pc obtain m where a5: "dt_add_minutes (clock_local e) 5 = Some sl"
      and dm: "duration_minutes s = Some m" and am: "dt_add_minutes sl m = Some el"
      by (auto simp: past_time_correction_def split: if_splits option.splits)
    from a5 now have nb: "\<not> dt_less sl (clock_local e)"
      by (auto dest: dt_add_minutes_forward(1))
    from a5 have slr: "0 \<le> hour sl" "0 \<le> minute sl" "minute sl < 60"
      by (auto simp: dt_add_minutes_def Let_def split: prod.splits if_splits)
    have o1: "0 \<le> m \<longrightarrow> \<not> dt_less el sl"
      using am slr by (auto dest: dt_add_minutes_forward(1))
    have o2: "0 < m \<longrightarrow> dt_less sl el"
      using am slr by (auto dest: dt_add_minutes_forward(2))
    from True pr us ue pd nb a5 dm am o1 o2 have "parse_range e s = Inr (st, en) \<and>
           start_dt (parse_datetime e s) = astimezone 0 \<lparr>naive = sl, utcoffset = local_offset e\<rparr> \<and>
           end_dt (parse_datetime e s) = astimezone 0 \<lparr>naive = el, utcoffset = local_offset e\<rparr> \<and>
           start_dt (parse_datetime e s) \<noteq> None \<and> end_dt (parse_datetime e s) \<noteq> None \<and>
           \<not> dt_less sl (clock_local e) \<and>
           (if dt_less st (clock_local e)
            then dt_add_minutes (clock_local e) 5 = Some sl \<and>
                 (\<exists>m. duration_minutes s = Some m \<and> dt_add_minutes sl m = Some el \<and>
                      (0 \<le> m \<longrightarrow> \<not> dt_less el sl) \<and> (0 < m \<longrightarrow> dt_less sl el))
            else sl = st \<and> el = en)"
      by simp
    then show ?thesis by blast
  next
    case False
    with pc have "sl = st" "el = en" by (auto simp: past_time_correction_def)
    with False pr us ue pd have "parse_range e s = Inr (st, en) \<and>
           start_dt (parse_datetime e s) = astimezone 0 \<lparr>naive = sl, utcoffset = local_offset e\<rparr> \<and>
           end_dt (parse_datetime e s) = astimezone 0 \<lparr>naive = el, utcoffset = local_offset e\<rparr> \<and>
           start_dt (parse_datetime e s) \<noteq> None \<and> end_dt (parse_datetime e s) \<noteq> None \<and>
           \<not> dt_less sl (clock_local e) \<and>
           (if dt_less st (clock_local e)
            then dt_add_minutes (clock_local e) 5 = Some sl \<and>
                 (\<exists>m. duration_minutes s = Some m \<and> dt_add_minutes sl m = Some el \<and>
                      (0 \<le> m \<longrightarrow> \<not> dt_less el sl) \<and> (0 < m \<longrightarrow> dt_less sl el))
            else sl = st \<and> el = en)"
      by simp
    then show ?thesis by blast
  qed
qed


theorem slot_invariant_witness:
  "error same_day_past_state = None \<and> valid_datetime (clock_local example_env) \<and>
   error (parse_datetime example_env same_day_past_state) = None \<and>
   \<not> dt_less \<lparr>year = 2027, month = 5, day = 20, hour = 9, minute = 35, second = 7,
                microsecond = 12\<rparr> (clock_local example_env) \<and>
   dt_less \<lparr>year = 2027, month = 5, day = 20, hour = 9, minute = 35, second = 7,
              microsecond = 12\<rparr>
           \<lparr>year = 2027, month = 5, day = 20, hour = 10, minute = 5, second = 7,
              microsecond = 12\<rparr>"
proof -
  let ?st = "\<lparr>year = 2027, month = 5, day = 20, hour = 8, minute = 0, second = 0, microsecond = 0\<rparr>"
  let ?en = "\<lparr>year = 2027, month = 5, day = 20, hour = 8, minute = 30, second = 0, microsecond = 0\<rparr>"
  let ?st' = "\<lparr>year = 2027, month = 5, day = 20, hour = 9, minute = 35, second = 7, microsecond = 12\<rparr>"
  let ?en' = "\<lparr>year = 2027, month = 5, day = 20, hour = 10, minute = 5, second = 7, microsecond = 12\<rparr>"
  have h1: "error same_day_past_state = None" by code_simp
  have h2: "valid_datetime (clock_local example_env)" by code_simp
  have h3: "error (parse_datetime example_env same_day_past_state) = None" by code_simp
  have p: "parse_range example_env same_day_past_state = Inr (?st, ?en)" by code_simp
  have l: "dt_less ?st (clock_local example_env)" by code_simp
  have a: "dt_add_minutes (clock_local example_env) 5 = Some ?st'" by code_simp
  have d: "duration_minutes same_day_past_state = Some 30" by code_simp
  have b: "dt_add_minutes ?st' 30 = Some ?en'" by code_simp
  from slot_invariant [OF h1 h2 h3] obtain st en sl el where
    r: "parse_range example_env same_day_past_state = Inr (st, en)"
      "\<not> dt_less sl (clock_local example_env)"
      "if dt_less st (clock_local example_env)
       then dt_add_minutes (clock_local example_env) 5 = Some sl \<and>
            (\<exists>m. duration_minutes same_day_past_state = Some m \<and> dt_add_minutes sl m = Some el \<and>
                 (0 \<le> m \<longrightarrow> \<not> dt_less el sl) \<and> (0 < m \<longrightarrow> dt_less sl el))
       else sl = st \<and> el = en"
    by blast
  from r(1) p have "st = ?st" by simp
  with r(3) l a have sl: "sl = ?st'" by simp
  from r(3) \<open>st = ?st\<close> l d have "dt_add_minutes sl 30 = Some el \<and> dt_less sl el" by auto
  with sl b have "dt_less ?st' ?en'" by simp
  with r(2) sl h1 h2 h3 show ?thesis by simp
qed

section \<open>The time range\<close>

lemma split_on_not_Nil: "split_on c s \<noteq> []"
  by (induction s) (auto split: list.splits)

lemma length_split_on: "length (split_on c s) = Suc (count_list s c)"
proof (induction s)
  case Nil
  then show ?case by simp
next
  case (Cons x xs)
  then show ?case using split_on_not_Nil [of c xs] by (auto split: list.splits)
qed

lemma split_on_two:
  assumes "split_on c s = [a, b]"
  shows "s = a @ [c] @ b"
  using assms
proof (induction s arbitrary: a)
  case Nil
  then show ?case by simp
next
  case (Cons x xs)
  show ?case
  proof (cases "x = c")
    case True
    with Cons.prems have "a = []" and "split_on c xs = [b]"
      using split_on_not_Nil [of c xs] by (auto split: list.splits)
    moreover from \<open>split_on c xs = [b]\<close> have "count_list xs c = 0"
      using length_split_on [of c xs] by simp
    moreover have "count_list xs c = 0 \<Longrightarrow> split_on c xs = [xs]" for xs
      by (induction xs) (auto split: if_splits)
    ultimately show ?thesis using True by simp
  next
    case False
    with Cons.prems obtain a' where "a = x # a'" and "split_on c xs = [a', b]"
      using split_on_not_Nil [of c xs] by (auto split: list.splits)
    with Cons.IH [of a'] show ?thesis by simp
  qed
qed

lemma contains_member:
  assumes "contains sub s" and "x \<in> set sub"
  shows "x \<in> set s"
  using assms
proof (induction s)
  case Nil
  then show ?case by simp
next
  case (Cons c cs)
  from Cons.prems(1) consider "take (length sub) (c # cs) = sub" | "contains sub cs" by auto
  then show ?case
  proof cases
    case 1
    then have "set sub \<subseteq> set (c # cs)" by (metis set_take_subset)
    with Cons.prems(2) show ?thesis by blast
  next
    case 2
    with Cons show ?thesis by simp
  qed
qed

lemma split_time_range_cases:
  "split_time_range t =
     (if \<not> contains '' - '' t then Inl (DateTimeParsing (TimeFormatIncorrect t))
      else if 1 < count_list t (CHR ''-'') then Inl (DateTimeParsing TooManyValues)
      else case split_on (CHR ''-'') t of
             [a, b] \<Rightarrow> Inr (strip a, strip b)
           | _ \<Rightarrow> Inl (DateTimeParsing NotEnoughValues))"
proof -
  have len: "length (map strip (split_on (CHR ''-'') t)) = Suc (count_list t (CHR ''-''))"
    by (simp add: length_split_on)
  show ?thesis
  proof (cases "split_on (CHR ''-'') t")
    case Nil
    then show ?thesis using split_on_not_Nil by blast
  next
    case (Cons p ps)
    then show ?thesis using len
      by (cases ps; cases "tl ps") (auto simp: split_time_range_def)
  qed
qed

text \<open>
  C6 fails for a range with more than one hyphen that contains \<^verbatim>\<open>" - "\<close>: the guard
  tests for \<^verbatim>\<open>" - "\<close> while the split is at every \<^verbatim>\<open>"-"\<close>, so the explicit test passes
  and the failure is the \<^verbatim>\<open>ValueError\<close> of unpacking three parts into two names, recorded
  with that exception's message instead of the time-format message.
\<close>

theorem three_parts_unpack_error:
  "error (parse_datetime example_env three_part_state) = Some (DateTimeParsing TooManyValues) \<and>
   error (parse_datetime example_env three_part_state) \<noteq>
     Some (DateTimeParsing (TimeFormatIncorrect ''3:00 PM - 4:00 PM - 5:00 PM''))"
  by code_simp

text \<open>
  What the date/time stage does with every time text: once the date has been read, a
  scheduled-time text that does not contain
  \<^verbatim>\<open>" - "\<close> (in particular one without any hyphen, such as \<^verbatim>\<open>3 PM\<close>) fails with the
  explicit time-format error of the date/time stage; a text that contains \<^verbatim>\<open>" - "\<close> and
  more than one hyphen fails in the same stage with the \<^verbatim>\<open>ValueError\<close> of the unpacking;
  and the stage succeeds only when the text contains \<^verbatim>\<open>" - "\<close> and exactly one hyphen, the
  two parts around it being trimmed.
\<close>

theorem time_range_shape:
  assumes "error s = None" and "scheduled_date_str s = Some dtext"
    and "parse_flexible_date (clock_parse e) dtext = Some date_obj"
    and "scheduled_time_str s = Some ttext"
  shows "(\<not> contains '' - '' ttext \<longrightarrow>
            parse_datetime e s = s\<lparr>error := Some (DateTimeParsing (TimeFormatIncorrect ttext))\<rparr>) \<and>
         (count_list ttext (CHR ''-'') = 0 \<longrightarrow> \<not> contains '' - '' ttext) \<and>
         (contains '' - '' ttext \<and> 1 < count_list ttext (CHR ''-'') \<longrightarrow>
            parse_datetime e s = s\<lparr>error := Some (DateTimeParsing TooManyValues)\<rparr>) \<and>
         (error (parse_datetime e s) = None \<longrightarrow>
            contains '' - '' ttext \<and> count_list ttext (CHR ''-'') = 1 \<and>
            (\<exists>a b. ttext = a @ ''-'' @ b \<and> split_time_range ttext = Inr (strip a, strip b)))"
proof -
  have pr: "parse_range e s =
              (case split_time_range ttext of
                 Inl err \<Rightarrow> Inl err
               | Inr (sp, ep) \<Rightarrow>
                   (case time_on_date date_obj sp of
                      Inl err \<Rightarrow> Inl err
                    | Inr a \<Rightarrow>
                        (case time_on_date date_obj ep of
                           Inl err \<Rightarrow> Inl err
                         | Inr b \<Rightarrow> Inr (a, b))))"
    using assms by (simp add: parse_range_def)
  have fail: "split_time_range ttext = Inl err \<Longrightarrow> parse_datetime e s = s\<lparr>error := Some err\<rparr>"
    for err
    using assms(1) pr by (simp add: parse_datetime_def resolve_slot_def)
  have a: "\<not> contains '' - '' ttext \<longrightarrow>
            parse_datetime e s = s\<lparr>error := Some (DateTimeParsing (TimeFormatIncorrect ttext))\<rparr>"
    using fail by (simp add: split_time_range_cases)
  have b: "count_list ttext (CHR ''-'') = 0 \<longrightarrow> \<not> contains '' - '' ttext"
  proof (intro impI notI)
    assume z: "count_list ttext (CHR ''-'') = 0" and c: "contains '' - '' ttext"
    from c have "CHR ''-'' \<in> set ttext" by (rule contains_member) simp
    with z show False by (simp add: count_list_0_iff)
  qed
  have c: "contains '' - '' ttext \<and> 1 < count_list ttext (CHR ''-'') \<longrightarrow>
            parse_datetime e s = s\<lparr>error := Some (DateTimeParsing TooManyValues)\<rparr>"
    using fail by (simp add: split_time_range_cases)
  have d: "error (parse_datetime e s) = None \<longrightarrow>
            contains '' - '' ttext \<and> count_list ttext (CHR ''-'') = 1 \<and>
            (\<exists>a b. ttext = a @ ''-'' @ b \<and> split_time_range ttext = Inr (strip a, strip b))"
  proof
    assume ok: "error (parse_datetime e s) = None"
    have nf: "split_time_range ttext \<noteq> Inl err" for err
      using fail [of err] ok by auto
    then obtain sp ep where sr: "split_time_range ttext = Inr (sp, ep)"
      by (cases "split_time_range ttext") auto
    from sr have c1: "contains '' - '' ttext" and c2: "\<not> 1 < count_list ttext (CHR ''-'')"
      by (auto simp: split_time_range_cases split: if_splits)
    from c1 b have "count_list ttext (CHR ''-'') \<noteq> 0" by blast
    with c2 have one: "count_list ttext (CHR ''-'') = 1" by simp
    then have "length (split_on (CHR ''-'') ttext) = 2" by (simp add: length_split_on)
    then obtain a b where ab: "split_on (CHR ''-'') ttext = [a, b]"
      by (cases "split_on (CHR ''-'') ttext"; cases "tl (split_on (CHR ''-'') ttext)") auto
    then have "ttext = a @ ''-'' @ b" using split_on_two by fastforce
    moreover from ab c1 c2 have "split_time_range ttext = Inr (strip a, strip b)"
      by (simp add: split_time_range_cases)
    ultimately show "contains '' - '' ttext \<and> count_list ttext (CHR ''-'') = 1 \<and>
            (\<exists>a b. ttext = a @ ''-'' @ b \<and> split_time_range ttext = Inr (strip a, strip b))"
      using c1 one by blast
  qed
  from a b c d show ?thesis by blast
qed


theorem time_range_shape_witness:
  "parse_datetime example_env no_hyphen_state =
     no_hyphen_state\<lparr>error := Some (DateTimeParsing (TimeFormatIncorrect ''3 PM''))\<rparr> \<and>
   parse_datetime example_env three_part_state =
     three_part_state\<lparr>error := Some (DateTimeParsing TooManyValues)\<rparr> \<and>
   error (parse_datetime example_env resolved_state) = None \<and>
   contains '' - '' ''3:00 PM - 3:30 PM'' \<and> count_list ''3:00 PM - 3:30 PM'' (CHR ''-'') = 1"
proof -
  let ?d = "\<lparr>year = 2027, month = 5, day = 28, hour = 0, minute = 0, second = 0, microsecond = 0\<rparr>"
  have pd: "parse_flexible_date (clock_parse example_env) ''Friday, 28 May 2027'' = Some ?d"
    by code_simp
  have n1: "error no_hyphen_state = None" by code_simp
  have n2: "scheduled_date_str no_hyphen_state = Some ''Friday, 28 May 2027''" by code_simp
  have n3: "scheduled_time_str no_hyphen_state = Some ''3 PM''" by code_simp
  have n4: "\<not> contains '' - '' ''3 PM''" by code_simp
  have t1: "error three_part_state = None" by code_simp
  have t2: "scheduled_date_str three_part_state = Some ''Friday, 28 May 2027''" by code_simp
  have t3: "scheduled_time_str three_part_state = Some ''3:00 PM - 4:00 PM - 5:00 PM''"
    by code_simp
  have t4: "contains '' - '' ''3:00 PM - 4:00 PM - 5:00 PM'' \<and>
            1 < count_list ''3:00 PM - 4:00 PM - 5:00 PM'' (CHR ''-'')" by code_simp
  have r1: "error resolved_state = None" by code_simp
  have r2: "scheduled_date_str resolved_state = Some ''Friday, 28 May 2027''" by code_simp
  have r3: "scheduled_time_str resolved_state = Some ''3:00 PM - 3:30 PM''" by code_simp
  have r4: "error (parse_datetime example_env resolved_state) = None" by code_simp
  from time_range_shape [OF n1 n2 pd n3] n4
  have a: "parse_datetime example_env no_hyphen_state =
     no_hyphen_state\<lparr>error := Some (DateTimeParsing (TimeFormatIncorrect ''3 PM''))\<rparr>"
    by blast
  from time_range_shape [OF t1 t2 pd t3] t4
  have b: "parse_datetime example_env three_part_state =
     three_part_state\<lparr>error := Some (DateTimeParsing TooManyValues)\<rparr>"
    by blast
  from time_range_shape [OF r1 r2 pd r3] r4
  have c: "contains '' - '' ''3:00 PM - 3:30 PM'' \<and>
           count_list ''3:00 PM - 3:30 PM'' (CHR ''-'') = 1"
    by blast
  from a b c r4 show ?thesis by blast
qed

section \<open>The year of a date without a year\<close>

lemma rmatch_group_names:
  "(g, r) \<in> set (rmatch rx s) \<Longrightarrow> fst ` set g \<subseteq> set (group_names rx)"
proof (induction rx arbitrary: g r s)
  case Eps
  then show ?case by simp
next
  case (Chr P)
  then show ?case by (cases s) (simp_all split: if_splits)
next
  case (Star P)
  then show ?case by auto
next
  case (Plus P)
  then show ?case by auto
next
  case (Seq a b)
  from Seq.prems obtain g1 r1 g2 where 1: "(g1, r1) \<in> set (rmatch a s)"
    and 2: "(g2, r) \<in> set (rmatch b r1)" and 3: "g = g1 @ g2"
    by auto
  from Seq.IH(1) [OF 1] Seq.IH(2) [OF 2] 3 show ?case by auto
next
  case (Alt a b)
  from Alt.prems consider "(g, r) \<in> set (rmatch a s)" | "(g, r) \<in> set (rmatch b s)" by auto
  then show ?case
  proof cases
    case 1
    from Alt.IH(1) [OF 1] show ?thesis by auto
  next
    case 2
    from Alt.IH(2) [OF 2] show ?thesis by auto
  qed
next
  case (Grp n a)
  from Grp.prems obtain g' where 1: "(g', r) \<in> set (rmatch a s)"
    and 2: "g = g' @ [(n, take (length s - length r) s)]"
    by auto
  from Grp.IH [OF 1] 2 show ?case by auto
qed

lemma yearless_pattern_groups:
  "map_option group_names (pattern ''%A, %d %B'') = Some [''A'', ''d'', ''B'']"
  by code_simp

lemma yearless_pattern:
  "\<exists>rx. pattern ''%A, %d %B'' = Some rx \<and> ''Y'' \<notin> set (group_names rx)"
  using yearless_pattern_groups by auto

lemma strptime_yearless:
  assumes "strptime txt ''%A, %d %B'' = Some d0"
  shows "year d0 = 1900 \<and> valid_datetime d0"
proof -
  from yearless_pattern obtain rx where rx: "pattern ''%A, %d %B'' = Some rx"
    and ny: "''Y'' \<notin> set (group_names rx)" by blast
  from assms rx obtain g rest where m: "re_match rx txt = Some (g, rest)"
    and b: "strptime_build g = Some d0"
    by (auto simp: strptime_def split: option.splits if_splits)
  from m have "(g, rest) \<in> set (rmatch rx txt)"
    by (auto simp: re_match_def split: list.splits)
  then have "fst ` set g \<subseteq> set (group_names rx)" by (rule rmatch_group_names)
  with ny have "''Y'' \<notin> fst ` set g" by blast
  then have "map_of g ''Y'' = None" by (simp add: map_of_eq_None_iff)
  with b show ?thesis
    by (auto simp: strptime_build_def datetime_new_def Let_def split: if_splits option.splits)
qed


lemma replace_year_valid:
  assumes "valid_datetime d0" and "year d0 = 1900" and "1 \<le> y" and "y \<le> 9999"
  shows "replace_year d0 y = Some (d0\<lparr>year := y\<rparr>)"
proof -
  have "days_in_month 1900 (month d0) \<le> days_in_month y (month d0)"
    by (simp add: days_in_month_def is_leap_def)
  with assms have v: "valid_datetime (d0\<lparr>year := y\<rparr>)" by (simp add: valid_datetime_def)
  have eq: "\<lparr>year = y, month = month d0, day = day d0, hour = hour d0, minute = minute d0,
             second = second d0, microsecond = microsecond d0\<rparr> = d0\<lparr>year := y\<rparr>"
    by simp
  show ?thesis unfolding replace_year_def datetime_new_def Let_def eq using v by simp
qed

text \<open>
  In the state-machine pipeline the year is inferred as C5 says: the only format of the list
  without a year is \<^verbatim>\<open>%A, %d %B\<close>. A text matched by it
  is read in the year 1900, then given the clock's year, and given the next year exactly
  when that date is before the clock's date (a date equal to today's is kept; beyond the
  year 9999 the format fails instead). A text matched by a format with a year is returned as
  \<^verbatim>\<open>strptime\<close> read it. When the first format fails and the second matches,
  \<^verbatim>\<open>parse_flexible_date\<close> returns the date with the inferred year.
\<close>

theorem year_inference:
  assumes "valid_datetime now"
  shows "(\<forall>f \<in> set formats. contains ''%Y'' f = (f \<noteq> ''%A, %d %B'')) \<and>
         (strptime txt ''%A, %d %B'' = Some d0 \<longrightarrow>
            year d0 = 1900 \<and>
            try_format now txt ''%A, %d %B'' =
              (if date_less (d0\<lparr>year := year now\<rparr>) now
               then (if year now < 9999 then Some (d0\<lparr>year := year now + 1\<rparr>) else None)
               else Some (d0\<lparr>year := year now\<rparr>))) \<and>
         (strptime txt ''%A, %d %B'' = Some d0 \<and> try_format now txt ''%A, %d %B %Y'' = None \<and>
            year now < 9999 \<longrightarrow>
            parse_flexible_date now txt =
              Some (d0\<lparr>year := (if date_less (d0\<lparr>year := year now\<rparr>) now then year now + 1
                                  else year now)\<rparr>)) \<and>
         (f \<in> set formats \<and> contains ''%Y'' f \<longrightarrow> try_format now txt f = strptime txt f)"
proof -
  have a: "\<forall>f \<in> set formats. contains ''%Y'' f = (f \<noteq> ''%A, %d %B'')"
    by (simp add: formats_def)
  have ny: "\<not> contains ''%Y'' ''%A, %d %B''" by simp
  have yr: "1 \<le> year now" "year now \<le> 9999" using assms by (simp_all add: valid_datetime_def)
  have b: "year d0 = 1900 \<and>
            try_format now txt ''%A, %d %B'' =
              (if date_less (d0\<lparr>year := year now\<rparr>) now
               then (if year now < 9999 then Some (d0\<lparr>year := year now + 1\<rparr>) else None)
               else Some (d0\<lparr>year := year now\<rparr>))"
    if s: "strptime txt ''%A, %d %B'' = Some d0"
  proof -
    from s have v: "year d0 = 1900" "valid_datetime d0" using strptime_yearless by auto
    from v yr have r1: "replace_year d0 (year now) = Some (d0\<lparr>year := year now\<rparr>)"
      by (simp add: replace_year_valid)
    have r2: "replace_year (d0\<lparr>year := year now\<rparr>) (year now + 1) =
                (if year now < 9999 then Some (d0\<lparr>year := year now + 1\<rparr>) else None)"
    proof (cases "year now < 9999")
      case True
      with v yr have "replace_year d0 (year now + 1) = Some (d0\<lparr>year := year now + 1\<rparr>)"
        by (simp add: replace_year_valid)
      with True show ?thesis by (simp add: replace_year_def)
    next
      case False
      then show ?thesis by (simp add: replace_year_def datetime_new_def valid_datetime_def)
    qed
    from s r1 r2 ny v(1) show ?thesis by (simp add: try_format_def del: contains.simps)
  qed
  have c: "parse_flexible_date now txt =
              Some (d0\<lparr>year := (if date_less (d0\<lparr>year := year now\<rparr>) now then year now + 1
                                  else year now)\<rparr>)"
    if "strptime txt ''%A, %d %B'' = Some d0" "try_format now txt ''%A, %d %B %Y'' = None"
       "year now < 9999"
    using b [OF that(1)] that(2,3) by (simp add: parse_flexible_date_def formats_def)
  have d: "f \<in> set formats \<and> contains ''%Y'' f \<longrightarrow> try_format now txt f = strptime txt f"
    by (auto simp: try_format_def split: option.splits)
  from a b c d show ?thesis by blast
qed

theorem year_inference_witness:
  "valid_datetime example_now \<and>
   map (contains ''%Y'') formats = [True, False, True, True, True, True, True] \<and>
   parse_flexible_date example_now ''Monday, 28 May'' =
     Some \<lparr>year = 2027, month = 5, day = 28, hour = 0, minute = 0, second = 0, microsecond = 0\<rparr> \<and>
   parse_flexible_date example_now ''Monday, 20 May'' =
     Some \<lparr>year = 2027, month = 5, day = 20, hour = 0, minute = 0, second = 0, microsecond = 0\<rparr> \<and>
   parse_flexible_date example_now ''Monday, 19 May'' =
     Some \<lparr>year = 2028, month = 5, day = 19, hour = 0, minute = 0, second = 0, microsecond = 0\<rparr> \<and>
   try_format example_now ''19 May 2027'' ''%d %B %Y'' =
     Some \<lparr>year = 2027, month = 5, day = 19, hour = 0, minute = 0, second = 0, microsecond = 0\<rparr>"
proof -
  have v: "valid_datetime example_now" by code_simp
  have y: "year example_now < 9999" by code_simp
  have s1: "strptime ''Monday, 28 May'' ''%A, %d %B'' =
    Some \<lparr>year = 1900, month = 5, day = 28, hour = 0, minute = 0, second = 0, microsecond = 0\<rparr>"
    by code_simp
  have s2: "strptime ''Monday, 20 May'' ''%A, %d %B'' =
    Some \<lparr>year = 1900, month = 5, day = 20, hour = 0, minute = 0, second = 0, microsecond = 0\<rparr>"
    by code_simp
  have s3: "strptime ''Monday, 19 May'' ''%A, %d %B'' =
    Some \<lparr>year = 1900, month = 5, day = 19, hour = 0, minute = 0, second = 0, microsecond = 0\<rparr>"
    by code_simp
  have n1: "try_format example_now ''Monday, 28 May'' ''%A, %d %B %Y'' = None" by code_simp
  have n2: "try_format example_now ''Monday, 20 May'' ''%A, %d %B %Y'' = None" by code_simp
  have n3: "try_format example_now ''Monday, 19 May'' ''%A, %d %B %Y'' = None" by code_simp
  have s4: "strptime ''19 May 2027'' ''%d %B %Y'' =
    Some \<lparr>year = 2027, month = 5, day = 19, hour = 0, minute = 0, second = 0, microsecond = 0\<rparr>"
    by code_simp
  have f4: "''%d %B %Y'' \<in> set formats \<and> contains ''%Y'' ''%d %B %Y''" by code_simp
  have m: "map (contains ''%Y'') formats = [True, False, True, True, True, True, True]"
    using year_inference [OF v] by (simp add: formats_def)
  have r1: "parse_flexible_date example_now ''Monday, 28 May'' =
     Some \<lparr>year = 2027, month = 5, day = 28, hour = 0, minute = 0, second = 0, microsecond = 0\<rparr>"
    using year_inference [OF v, of "''Monday, 28 May''"] s1 n1 y
    by (simp add: example_now_def date_less_def date_key_def)
  have r2: "parse_flexible_date example_now ''Monday, 20 May'' =
     Some \<lparr>year = 2027, month = 5, day = 20, hour = 0, minute = 0, second = 0, microsecond = 0\<rparr>"
    using year_inference [OF v, of "''Monday, 20 May''"] s2 n2 y
    by (simp add: example_now_def date_less_def date_key_def)
  have r3: "parse_flexible_date example_now ''Monday, 19 May'' =
     Some \<lparr>year = 2028, month = 5, day = 19, hour = 0, minute = 0, second = 0, microsecond = 0\<rparr>"
    using year_inference [OF v, of "''Monday, 19 May''"] s3 n3 y
    by (simp add: example_now_def date_less_def date_key_def)
  have r4: "try_format example_now ''19 May 2027'' ''%d %B %Y'' =
     Some \<lparr>year = 2027, month = 5, day = 19, hour = 0, minute = 0, second = 0, microsecond = 0\<rparr>"
    using year_inference [OF v, of "''19 May 2027''" _ "''%d %B %Y''"] s4 f4
    by simp
  from v m r1 r2 r3 r4 show ?thesis by blast
qed

section \<open>The weekday of a date text\<close>

lemma rmatch_ilit:
  "rmatch (ilit n) s =
     (if length n \<le> length s \<and> lower (take (length n) s) = lower n
      then [([], drop (length n) s)] else [])"
proof (induction n arbitrary: s)
  case Nil
  then show ?case by (simp add: lower_def)
next
  case (Cons c cs)
  show ?case
  proof (cases s)
    case Nil
    then show ?thesis by simp
  next
    case (Cons x xs)
    with Cons.IH [of xs] show ?thesis by (auto simp: lower_def)
  qed
qed

lemma rmatch_alts_ilit:
  "rmatch (alts (map ilit ns)) s = concat (map (\<lambda>n. rmatch (ilit n) s) ns)"
proof (induction ns)
  case Nil
  then show ?case by (cases s) simp_all
next
  case (Cons n ns)
  then show ?case by (cases ns) simp_all
qed

lemma concat_one:
  assumes "distinct ns" and "name \<in> set ns"
  shows "concat (map (\<lambda>n. if n = name then [x] else []) ns) = [x]"
  using assms
proof (induction ns)
  case Nil
  then show ?case by simp
next
  case (Cons n ns)
  show ?case
  proof (cases "n = name")
    case True
    with Cons.prems have "name \<notin> set ns" by simp
    then have "concat (map (\<lambda>n. if n = name then [x] else []) ns) = []"
      by (induction ns) auto
    with True show ?thesis by simp
  next
    case False
    with Cons show ?thesis by simp
  qed
qed

lemma ilit_other_name:
  assumes w: "lower w = name" and n: "lower n = n" and nc: "\<not> prefix_clash n name"
  shows "rmatch (ilit n) (w @ rest) = []"
proof (rule ccontr)
  assume "rmatch (ilit n) (w @ rest) \<noteq> []"
  then have len: "length n \<le> length (w @ rest)"
    and eq: "lower (take (length n) (w @ rest)) = lower n"
    by (auto simp: rmatch_ilit split: if_splits)
  let ?k = "min (length n) (length name)"
  have lw: "length w = length name" using w by (auto simp: lower_def)
  have "take ?k n = take ?k (lower (take (length n) (w @ rest)))" using eq n by simp
  also have "\<dots> = lower (take ?k (take (length n) (w @ rest)))"
    by (simp add: lower_def take_map)
  also have "\<dots> = lower (take ?k w)" using lw by (simp add: min_def)
  also have "\<dots> = take ?k name" using w by (auto simp: lower_def take_map)
  finally show False using nc by (simp add: prefix_clash_def)
qed

lemma ilit_same_name:
  assumes w: "lower w = name" and n: "lower name = name"
  shows "rmatch (ilit name) (w @ rest) = [([], rest)]"
proof -
  have lw: "length w = length name" using w by (auto simp: lower_def)
  then show ?thesis using w n by (simp add: rmatch_ilit)
qed

lemma seqToRE_on_name:
  assumes w: "lower w \<in> set names"
    and low: "\<forall>n \<in> set names. lower n = n"
    and nc: "\<forall>a \<in> set names. \<forall>b \<in> set names. a \<noteq> b \<longrightarrow> \<not> prefix_clash a b"
    and dist: "distinct names"
  shows "rmatch (seqToRE names d) (w @ rest) = [([(d, w)], rest)]"
proof -
  let ?ns = "sort_key (\<lambda>v. - int (length v)) names"
  have set: "set ?ns = set names" and d: "distinct ?ns" using dist by simp_all
  have each: "rmatch (ilit n) (w @ rest) = (if n = lower w then [([], rest)] else [])"
    if "n \<in> set ?ns" for n
  proof (cases "n = lower w")
    case True
    with low w show ?thesis by (simp add: ilit_same_name)
  next
    case False
    with that set w low nc have "lower n = n" "\<not> prefix_clash n (lower w)" by auto
    with False show ?thesis by (simp add: ilit_other_name)
  qed
  have "concat (map (\<lambda>n. rmatch (ilit n) (w @ rest)) ?ns) =
        concat (map (\<lambda>n. if n = lower w then [([], rest)] else []) ?ns)"
    using each by (auto intro!: arg_cong [where f = concat] map_cong)
  also have "\<dots> = [([], rest)]" using d w set by (simp add: concat_one)
  finally show ?thesis by (simp add: seqToRE_def rmatch_alts_ilit)
qed

lemma seqToRE_off_name:
  assumes w: "lower w = name"
    and low: "\<forall>n \<in> set names. lower n = n"
    and nc: "\<forall>a \<in> set names. \<not> prefix_clash a name"
  shows "rmatch (seqToRE names d) (w @ rest) = []"
proof -
  let ?ns = "sort_key (\<lambda>v. - int (length v)) names"
  have "rmatch (ilit n) (w @ rest) = []" if "n \<in> set ?ns" for n
    using that w low nc by (auto intro: ilit_other_name)
  then have "concat (map (\<lambda>n. rmatch (ilit n) (w @ rest)) ?ns) = []" by simp
  then show ?thesis by (simp add: seqToRE_def rmatch_alts_ilit)
qed

lemma weekday_names_lower: "\<forall>n \<in> set f_weekday. lower n = n"
  by code_simp

lemma weekday_names_apart:
  "\<forall>a \<in> set f_weekday. \<forall>b \<in> set f_weekday. a \<noteq> b \<longrightarrow> \<not> prefix_clash a b"
  by code_simp

lemma weekday_names_distinct: "distinct f_weekday"
  by code_simp

lemma month_names_lower: "\<forall>n \<in> set (tl f_month). lower n = n"
  by code_simp

lemma month_names_apart_weekdays:
  "\<forall>a \<in> set (tl f_month). \<forall>b \<in> set f_weekday. \<not> prefix_clash a b"
  by code_simp

lemma weekday_group:
  assumes "is_weekday_name w"
  shows "rmatch (seqToRE f_weekday ''A'') (w @ rest) = [([(''A'', w)], rest)]"
  using assms weekday_names_lower weekday_names_apart weekday_names_distinct
  unfolding is_weekday_name_def by (rule seqToRE_on_name)

lemma month_group_on_weekday:
  assumes "is_weekday_name w"
  shows "rmatch (seqToRE (tl f_month) ''B'') (w @ rest) = []"
proof -
  from assms month_names_apart_weekdays
  have "\<forall>a \<in> set (tl f_month). \<not> prefix_clash a (lower w)"
    by (auto simp: is_weekday_name_def)
  with month_names_lower show ?thesis by (intro seqToRE_off_name) auto
qed

lemma strptime_build_weekday: "strptime_build ((''A'', w) # g) = strptime_build g"
proof -
  have "map_of ((''A'', w) # g) k = map_of g k" if "k \<noteq> ''A''" for k
    using that by simp
  then have eqs: "map_of ((''A'', w) # g) ''Y'' = map_of g ''Y''"
    "map_of ((''A'', w) # g) ''m'' = map_of g ''m''"
    "map_of ((''A'', w) # g) ''B'' = map_of g ''B''"
    "map_of ((''A'', w) # g) ''d'' = map_of g ''d''"
    "map_of ((''A'', w) # g) ''I'' = map_of g ''I''"
    "map_of ((''A'', w) # g) ''p'' = map_of g ''p''"
    "map_of ((''A'', w) # g) ''M'' = map_of g ''M''"
    by simp_all
  show ?thesis
    unfolding strptime_build_def strptime_month_def strptime_hour_def eqs by (rule refl)
qed

lemma pattern_weekday:
  "pattern (CHR ''%'' # CHR ''A'' # f) = map_option (Seq (seqToRE f_weekday ''A'')) (pattern f)"
  by (simp add: directive_regex_def)

lemma strptime_weekday:
  assumes "is_weekday_name w"
  shows "strptime (w @ rest) (CHR ''%'' # CHR ''A'' # f) =
           (case pattern f of
              None \<Rightarrow> None
            | Some r \<Rightarrow>
                (case rmatch r rest of
                   [] \<Rightarrow> None
                 | (g, left) # _ \<Rightarrow> if left \<noteq> [] then None else strptime_build g))"
proof (cases "pattern f")
  case None
  then show ?thesis by (simp add: strptime_def pattern_weekday del: pattern.simps)
next
  case (Some r)
  show ?thesis
  proof (cases "rmatch r rest")
    case Nil
    with Some show ?thesis
      by (simp add: strptime_def pattern_weekday re_match_def weekday_group [OF assms]
            del: pattern.simps)
  next
    case (Cons m ms)
    obtain g left where "m = (g, left)" by (cases m)
    with Some Cons show ?thesis
      by (simp add: strptime_def pattern_weekday re_match_def weekday_group [OF assms]
            strptime_build_weekday del: pattern.simps)
  qed
qed

lemma lower_chr_plain_all: "\<forall>c \<in> set '' 0123456789''. lower_chr c = c"
  by code_simp

lemma lower_chr_plain: "c \<in> set '' 0123456789'' \<Longrightarrow> lower_chr c = c"
  using lower_chr_plain_all by blast

lemma weekday_first_char:
  assumes "is_weekday_name w"
  shows "\<exists>c cs. w = c # cs \<and> c \<notin> set '' 0123456789''"
proof (cases w)
  case Nil
  with assms show ?thesis by (simp add: is_weekday_name_def lower_def f_weekday_def)
next
  case (Cons c cs)
  with assms have "lower_chr c \<in> set ''mtwfs''"
    by (auto simp: is_weekday_name_def lower_def f_weekday_def)
  then have "c \<notin> set '' 0123456789''" using lower_chr_plain [of c] by auto
  with Cons show ?thesis by simp
qed

lemma number_directive_fails:
  assumes "c \<notin> set '' 0123456789''" and "x \<in> set ''dmY''"
  shows "\<exists>r. directive_regex x = Some r \<and> rmatch r (c # s) = []"
  using assms by (auto simp: directive_regex_def cls_def isdigit_def)

lemma strptime_number_first:
  assumes "c \<notin> set '' 0123456789''" and "x \<in> set ''dmY''"
  shows "strptime (c # s) (CHR ''%'' # x # f) = None"
proof -
  from number_directive_fails [OF assms] obtain r where
    r: "directive_regex x = Some r" and e: "rmatch r (c # s) = []" by blast
  show ?thesis
  proof (cases "pattern f")
    case None
    with r show ?thesis by (simp add: strptime_def)
  next
    case (Some r2)
    with r e show ?thesis by (simp add: strptime_def re_match_def)
  qed
qed

lemma strptime_month_first:
  assumes "is_weekday_name w"
  shows "strptime (w @ rest) (CHR ''%'' # CHR ''B'' # f) = None"
proof -
  have d: "directive_regex (CHR ''B'') = Some (seqToRE (tl f_month) ''B'')"
    by (simp add: directive_regex_def)
  show ?thesis
  proof (cases "pattern f")
    case None
    with d show ?thesis by (simp add: strptime_def)
  next
    case (Some r2)
    with d month_group_on_weekday [OF assms, of rest] show ?thesis
      by (simp add: strptime_def re_match_def)
  qed
qed

lemma try_format_weekday:
  assumes "is_weekday_name w" and "is_weekday_name w'" and "f \<in> set formats"
  shows "try_format now (w @ rest) f = try_format now (w' @ rest) f"
proof -
  from assms(1) obtain c cs where w: "w = c # cs" "c \<notin> set '' 0123456789''"
    using weekday_first_char by blast
  from assms(2) obtain c' cs' where w': "w' = c' # cs'" "c' \<notin> set '' 0123456789''"
    using weekday_first_char by blast
  have a: "strptime (w @ rest) (CHR ''%'' # CHR ''A'' # g) =
           strptime (w' @ rest) (CHR ''%'' # CHR ''A'' # g)" for g
    by (simp only: strptime_weekday [OF assms(1)] strptime_weekday [OF assms(2)])
  have n: "strptime (w @ rest) (CHR ''%'' # x # g) = None \<and>
           strptime (w' @ rest) (CHR ''%'' # x # g) = None" if "x \<in> set ''dmY''" for x g
    using strptime_number_first [OF w(2) that] strptime_number_first [OF w'(2) that] w(1) w'(1)
    by simp
  have b: "strptime (w @ rest) (CHR ''%'' # CHR ''B'' # g) = None \<and>
           strptime (w' @ rest) (CHR ''%'' # CHR ''B'' # g) = None" for g
    using strptime_month_first assms by simp
  have "strptime (w @ rest) f = strptime (w' @ rest) f"
    using assms(3) a n b by (auto simp: formats_def)
  then show ?thesis by (simp add: try_format_def)
qed

lemma february_29: "parse_flexible_date now ''Monday, 29 February'' = None"
  by code_simp

text \<open>
  C10: a date text that begins with a weekday name, in any mix of cases, is read the same
  whichever of the seven names it is: \<^verbatim>\<open>strptime\<close> with either weekday format gives the
  same result for two texts that differ in the name only, and so does
  \<^verbatim>\<open>parse_flexible_date\<close>; the name is matched and then plays no part in the date. A
  yearless \<^verbatim>\<open>29 February\<close> after any weekday name is never parsed, whatever the clock,
  since the yearless format is read in 1900.
\<close>

theorem weekday_not_checked:
  assumes "is_weekday_name w" and "is_weekday_name w'"
  shows "strptime (w @ rest) ''%A, %d %B %Y'' = strptime (w' @ rest) ''%A, %d %B %Y'' \<and>
         strptime (w @ rest) ''%A, %d %B'' = strptime (w' @ rest) ''%A, %d %B'' \<and>
         parse_flexible_date now (w @ rest) = parse_flexible_date now (w' @ rest) \<and>
         parse_flexible_date now (w @ '', 29 February'') = None"
proof -
  have a: "strptime (w @ rest) ''%A, %d %B %Y'' = strptime (w' @ rest) ''%A, %d %B %Y''"
    by (simp only: strptime_weekday [OF assms(1)] strptime_weekday [OF assms(2)])
  have b: "strptime (w @ rest) ''%A, %d %B'' = strptime (w' @ rest) ''%A, %d %B''"
    by (simp only: strptime_weekday [OF assms(1)] strptime_weekday [OF assms(2)])
  have tf: "try_format now (v @ r) f = try_format now (v' @ r) f"
    if "is_weekday_name v" "is_weekday_name v'" "f \<in> set formats" for v v' r f
    using that by (rule try_format_weekday)
  have c: "parse_flexible_date now (v @ r) = parse_flexible_date now (v' @ r)"
    if "is_weekday_name v" "is_weekday_name v'" for v v' r
  proof -
    have "try_formats now (v @ r) fs = try_formats now (v' @ r) fs"
      if "set fs \<subseteq> set formats" for fs
      using that
    proof (induction fs)
      case Nil
      then show ?case by simp
    next
      case (Cons f fs)
      then have "try_format now (v @ r) f = try_format now (v' @ r) f"
        using tf [OF \<open>is_weekday_name v\<close> \<open>is_weekday_name v'\<close>] by simp
      with Cons show ?case by (simp split: option.splits)
    qed
    then show ?thesis by (simp add: parse_flexible_date_def)
  qed
  have m: "is_weekday_name ''Monday''" by code_simp
  have "parse_flexible_date now (w @ '', 29 February'') =
        parse_flexible_date now (''Monday'' @ '', 29 February'')"
    using assms(1) m by (rule c)
  then have d: "parse_flexible_date now (w @ '', 29 February'') = None"
    using february_29 by simp
  from a b c [OF assms] d show ?thesis by blast
qed

theorem weekday_not_checked_witness:
  "is_weekday_name ''Monday'' \<and> is_weekday_name ''fRiDaY'' \<and>
   parse_flexible_date example_now ''Monday, 28 May 2027'' =
     Some \<lparr>year = 2027, month = 5, day = 28, hour = 0, minute = 0, second = 0, microsecond = 0\<rparr> \<and>
   parse_flexible_date example_now ''fRiDaY, 28 May 2027'' =
     Some \<lparr>year = 2027, month = 5, day = 28, hour = 0, minute = 0, second = 0, microsecond = 0\<rparr> \<and>
   parse_flexible_date example_now ''fRiDaY, 29 February'' = None"
proof -
  have m: "is_weekday_name ''Monday''" by code_simp
  have f: "is_weekday_name ''fRiDaY''" by code_simp
  have p: "parse_flexible_date example_now ''fRiDaY, 28 May 2027'' =
     Some \<lparr>year = 2027, month = 5, day = 28, hour = 0, minute = 0, second = 0, microsecond = 0\<rparr>"
    by code_simp
  from weekday_not_checked [OF m f, of "'', 28 May 2027''" example_now] p
  have q: "parse_flexible_date example_now ''Monday, 28 May 2027'' =
     Some \<lparr>year = 2027, month = 5, day = 28, hour = 0, minute = 0, second = 0, microsecond = 0\<rparr>"
    by simp
  from weekday_not_checked [OF f m, of "[]" example_now]
  have r: "parse_flexible_date example_now ''fRiDaY, 29 February'' = None" by simp
  from m f p q r show ?thesis by blast
qed

section \<open>The searches of the response parser\<close>

lemma rmatch_lit:
  "rmatch (lit l) s = (if take (length l) s = l then [([], drop (length l) s)] else [])"
proof (induction l arbitrary: s)
  case Nil
  then show ?case by simp
next
  case (Cons c cs)
  show ?case
  proof (cases s)
    case Nil
    then show ?thesis by simp
  next
    case (Cons x xs)
    with Cons.IH [of xs] show ?thesis by auto
  qed
qed

lemma runs_hd: "runs P s \<noteq> [] \<and> hd (runs P s) = (takeWhile P s, dropWhile P s)"
proof (induction s)
  case Nil
  then show ?case by simp
next
  case (Cons c cs)
  then show ?case by (cases "runs P cs") auto
qed

lemma take_takeWhile: "take (length s - length (dropWhile P s)) s = takeWhile P s"
proof -
  have "length s = length (takeWhile P s) + length (dropWhile P s)"
    by (metis length_append takeWhile_dropWhile_id)
  then have "length s - length (dropWhile P s) = length (takeWhile P s)" by simp
  then show ?thesis by (metis append_eq_conv_conj takeWhile_dropWhile_id)
qed

lemma rmatch_group_plus:
  "rmatch (Grp n (Plus P)) s =
     (if s \<noteq> [] \<and> P (hd s)
      then ([(n, takeWhile P s)], dropWhile P s) # tl (rmatch (Grp n (Plus P)) s)
      else [])"
proof (cases s)
  case Nil
  then show ?thesis by simp
next
  case (Cons c cs)
  show ?thesis
  proof (cases "P c")
    case True
    obtain x xs where rs: "runs P cs = x # xs" using runs_hd [of P cs] by (cases "runs P cs") auto
    with runs_hd [of P cs] have x: "x = (takeWhile P cs, dropWhile P cs)" by simp
    have "take (length (c # cs) - length (dropWhile P (c # cs))) (c # cs) = takeWhile P (c # cs)"
      by (rule take_takeWhile)
    with True have t: "take (Suc (length cs) - length (dropWhile P cs)) (c # cs) = c # takeWhile P cs"
      by simp
    from Cons True rs x t show ?thesis by simp
  next
    case False
    with Cons show ?thesis by simp
  qed
qed

lemma rmatch_skip_space:
  "rmatch (Seq (Star isspace) r) (c # cs) =
     (if isspace c then rmatch (Seq (Star isspace) r) cs else []) @
     map (\<lambda>(g, left). ([] @ g, left)) (rmatch r (c # cs))"
  by (simp add: comp_def case_prod_unfold)

lemma only_newlines_Cons: "only_newlines (c # cs) = (c = CHR 0x0A \<and> only_newlines cs)"
  by (simp add: only_newlines_def)

lemma only_newlines_blank:
  assumes "only_newlines s"
  shows "takeWhile dot s = [] \<and> dropWhile isspace s = []"
  using assms
  by (induction s) (auto simp: only_newlines_Cons dot_def isspace_def)

lemma space_not_digit: "isspace c \<Longrightarrow> \<not> isdigit c"
  by (auto simp: isspace_def isdigit_def)

lemma not_space_dot: "\<not> isspace c \<Longrightarrow> dot c"
  by (auto simp: isspace_def dot_def)

lemma text_tail_empty:
  "(rmatch (Seq (Star isspace) (Grp ''1'' (Plus dot))) s = []) = only_newlines s"
proof (induction s)
  case Nil
  then show ?case by (simp add: only_newlines_def)
next
  case (Cons c cs)
  have g: "(rmatch (Grp ''1'' (Plus dot)) (c # cs) = []) = (c = CHR 0x0A)"
    by (subst rmatch_group_plus) (simp add: dot_def)
  have sp: "c = CHR 0x0A \<Longrightarrow> isspace c" by (simp add: isspace_def)
  show ?case
    unfolding rmatch_skip_space only_newlines_Cons using Cons.IH g sp
    by (auto simp del: rmatch.simps)
qed

lemma text_tail_group:
  assumes "rmatch (Seq (Star isspace) (Grp ''1'' (Plus dot))) s \<noteq> []"
  shows "strip (group1 (hd (rmatch (Seq (Star isspace) (Grp ''1'' (Plus dot))) s))) =
         strip (takeWhile dot (dropWhile isspace s))"
  using assms
proof (induction s)
  case Nil
  then show ?case by simp
next
  case (Cons c cs)
  note rmatch.simps [simp del]
  let ?T = "Seq (Star isspace) (Grp ''1'' (Plus dot))"
  let ?G = "rmatch (Grp ''1'' (Plus dot)) (c # cs)"
  have hdG: "dot c \<Longrightarrow> ?G \<noteq> [] \<and> hd ?G = ([(''1'', takeWhile dot (c # cs))], dropWhile dot (c # cs))"
    by (subst rmatch_group_plus, subst (2) rmatch_group_plus) simp
  have g1: "group1 ([(''1'', t)], left) = t" for t left by (simp add: group1_def)
  show ?case
  proof (cases "isspace c \<and> rmatch ?T cs \<noteq> []")
    case True
    then have "hd (rmatch ?T (c # cs)) = hd (rmatch ?T cs)"
      unfolding rmatch_skip_space [of _ c cs] by simp
    with True Cons.IH show ?thesis by simp
  next
    case False
    then have eq: "rmatch ?T (c # cs) = map (\<lambda>(g, left). ([] @ g, left)) ?G"
      unfolding rmatch_skip_space [of _ c cs] by auto
    with Cons.prems have ne: "?G \<noteq> []" by auto
    then have d: "dot c" by (subst (asm) rmatch_group_plus) (simp split: if_splits)
    from eq ne hdG [OF d] have h: "hd (rmatch ?T (c # cs)) =
        ([] @ [(''1'', takeWhile dot (c # cs))], dropWhile dot (c # cs))"
      by (simp add: hd_map)
    show ?thesis
    proof (cases "isspace c")
      case True
      with False have "rmatch ?T cs = []" by simp
      then have "only_newlines cs" by (simp only: text_tail_empty)
      then have tw: "takeWhile dot cs = []" and dw: "dropWhile isspace cs = []"
        using only_newlines_blank by auto
      from True d h show ?thesis by (simp add: g1 strip_def tw dw)
    next
      case False
      with d h show ?thesis by (simp add: g1)
    qed
  qed
qed

lemma rmatch_after_lit:
  "rmatch (Seq (lit l) r) s =
     (if take (length l) s = l
      then map (\<lambda>(g, left). ([] @ g, left)) (rmatch r (drop (length l) s)) else [])"
  by (simp add: rmatch_lit)

lemma group1_hd_map:
  assumes "ms \<noteq> []"
  shows "group1 (hd (map (\<lambda>(g, left). ([] @ g, left)) ms)) = group1 (hd ms)"
  using assms by (cases ms) (auto simp: group1_def)

lemma re_match_label_text:
  "map_option (\<lambda>m. strip (group1 m)) (re_match (label_text l) s) =
     (if take (length l) s = l \<and> \<not> only_newlines (drop (length l) s)
      then Some (strip (takeWhile dot (dropWhile isspace (drop (length l) s))))
      else None)"
proof -
  note rmatch.simps [simp del]
  let ?T = "Seq (Star isspace) (Grp ''1'' (Plus dot))"
  let ?rest = "drop (length l) s"
  show ?thesis
  proof (cases "take (length l) s = l \<and> \<not> only_newlines ?rest")
    case True
    then have ne: "rmatch ?T ?rest \<noteq> []" by (simp add: text_tail_empty)
    let ?ms = "map (\<lambda>(g, left). ([] @ g, left)) (rmatch ?T ?rest)"
    from True have r: "rmatch (label_text l) s = ?ms"
      by (simp add: label_text_def rmatch_after_lit)
    from ne have "?ms \<noteq> []" by simp
    then have "re_match (label_text l) s = Some (hd ?ms)"
      using r by (cases ?ms) (simp_all add: re_match_def)
    moreover have "strip (group1 (hd ?ms)) = strip (takeWhile dot (dropWhile isspace ?rest))"
      using group1_hd_map [OF ne] text_tail_group [OF ne] by simp
    ultimately show ?thesis using True by simp
  next
    case False
    then have "rmatch (label_text l) s = []"
      by (auto simp: label_text_def rmatch_after_lit text_tail_empty)
    with False show ?thesis by (simp add: re_match_def)
  qed
qed

lemma search_text:
  assumes "l \<noteq> []"
  shows "map_option (\<lambda>m. strip (group1 m)) (re_search (label_text l) out) = text_after l out"
proof (induction out)
  case Nil
  from assms re_match_label_text [of l "[]"] show ?case by simp
next
  case (Cons c cs)
  show ?case
  proof (cases "re_match (label_text l) (c # cs)")
    case None
    with re_match_label_text [of l "c # cs"]
    have "\<not> (take (length l) (c # cs) = l \<and> \<not> only_newlines (drop (length l) (c # cs)))"
      by (auto split: if_splits)
    then have "text_after l (c # cs) = text_after l cs" by auto
    with None Cons.IH show ?thesis by simp
  next
    case (Some m)
    with re_match_label_text [of l "c # cs"]
    have "take (length l) (c # cs) = l \<and> \<not> only_newlines (drop (length l) (c # cs)) \<and>
          strip (group1 m) = strip (takeWhile dot (dropWhile isspace (drop (length l) (c # cs))))"
      by (auto split: if_splits)
    then have "text_after l (c # cs) = Some (strip (group1 m))" by auto
    with Some show ?thesis by simp
  qed
qed

lemma digits_tail:
  "rmatch (Seq (Star isspace) (Grp ''1'' (Plus isdigit))) s =
     map (\<lambda>(g, left). ([] @ g, left)) (rmatch (Grp ''1'' (Plus isdigit)) (dropWhile isspace s))"
proof (induction s)
  case Nil
  then show ?case by simp
next
  case (Cons c cs)
  note rmatch.simps [simp del]
  show ?case
  proof (cases "isspace c")
    case True
    then have "rmatch (Grp ''1'' (Plus isdigit)) (c # cs) = []"
      by (subst rmatch_group_plus) (simp add: space_not_digit)
    with True Cons.IH show ?thesis unfolding rmatch_skip_space [of _ c cs] by simp
  next
    case False
    then show ?thesis unfolding rmatch_skip_space [of _ c cs] by simp
  qed
qed

lemma takeWhile_Nil_hd: "(takeWhile P s \<noteq> []) = (s \<noteq> [] \<and> P (hd s))"
  by (cases s) auto

lemma re_match_label_digits:
  "map_option group1 (re_match (label_digits l) s) =
     (if take (length l) s = l \<and>
         takeWhile isdigit (dropWhile isspace (drop (length l) s)) \<noteq> []
      then Some (takeWhile isdigit (dropWhile isspace (drop (length l) s)))
      else None)"
proof -
  note rmatch.simps [simp del]
  let ?rest = "dropWhile isspace (drop (length l) s)"
  let ?G = "rmatch (Grp ''1'' (Plus isdigit)) ?rest"
  have r: "rmatch (label_digits l) s =
             (if take (length l) s = l
              then map (\<lambda>(g, left). ([] @ g, left)) (map (\<lambda>(g, left). ([] @ g, left)) ?G)
              else [])"
    by (simp add: label_digits_def rmatch_after_lit digits_tail)
  show ?thesis
  proof (cases "take (length l) s = l \<and> takeWhile isdigit ?rest \<noteq> []")
    case True
    then have "?rest \<noteq> [] \<and> isdigit (hd ?rest)" using takeWhile_Nil_hd [of isdigit ?rest] by blast
    moreover have "?G = (if ?rest \<noteq> [] \<and> isdigit (hd ?rest)
                         then ([(''1'', takeWhile isdigit ?rest)], dropWhile isdigit ?rest) # tl ?G
                         else [])"
      by (rule rmatch_group_plus)
    ultimately have "?G = ([(''1'', takeWhile isdigit ?rest)], dropWhile isdigit ?rest) # tl ?G"
      by simp
    then obtain ms where "?G = ([(''1'', takeWhile isdigit ?rest)], dropWhile isdigit ?rest) # ms"
      by blast
    with r True show ?thesis by (simp add: re_match_def group1_def)
  next
    case False
    moreover have "?G = (if ?rest \<noteq> [] \<and> isdigit (hd ?rest)
                         then ([(''1'', takeWhile isdigit ?rest)], dropWhile isdigit ?rest) # tl ?G
                         else [])"
      by (rule rmatch_group_plus)
    ultimately have "take (length l) s \<noteq> l \<or> ?G = []"
      by (auto simp: takeWhile_Nil_hd)
    with r False show ?thesis by (auto simp: re_match_def)
  qed
qed

lemma search_digits:
  assumes "l \<noteq> []"
  shows "map_option group1 (re_search (label_digits l) out) = digits_after l out"
proof (induction out)
  case Nil
  from assms re_match_label_digits [of l "[]"] show ?case by simp
next
  case (Cons c cs)
  show ?case
  proof (cases "re_match (label_digits l) (c # cs)")
    case None
    with re_match_label_digits [of l "c # cs"]
    have "\<not> (take (length l) (c # cs) = l \<and>
              takeWhile isdigit (dropWhile isspace (drop (length l) (c # cs))) \<noteq> [])"
      by (auto split: if_splits)
    then have "digits_after l (c # cs) = digits_after l cs" by auto
    with None Cons.IH show ?thesis by simp
  next
    case (Some m)
    with re_match_label_digits [of l "c # cs"]
    have "take (length l) (c # cs) = l \<and>
          takeWhile isdigit (dropWhile isspace (drop (length l) (c # cs))) \<noteq> [] \<and>
          group1 m = takeWhile isdigit (dropWhile isspace (drop (length l) (c # cs)))"
      by (auto split: if_splits)
    then have "digits_after l (c # cs) = Some (group1 m)" by auto
    with Some show ?thesis by simp
  qed
qed

lemma text_after_absent: "\<not> contains l out \<Longrightarrow> text_after l out = None"
  by (induction out) auto

lemma digits_after_absent: "\<not> contains l out \<Longrightarrow> digits_after l out = None"
  by (induction out) auto

lemma parse_ai_response_fields:
  assumes "error s = None" and "output s = Some out" and "out \<noteq> []"
  shows "parse_ai_response s =
           (case (text_after ''Task:'' out, text_after ''Date:'' out, text_after ''Time:'' out) of
              (Some t, Some d, Some ti) \<Rightarrow>
                (case (case digits_after ''Duration:'' out of
                         Some ds \<Rightarrow> py_int ds
                       | None \<Rightarrow> Some 60) of
                   None \<Rightarrow>
                     s\<lparr>task_title := Some t, scheduled_date_str := Some d,
                       scheduled_time_str := Some ti,
                       error := Some (ParsingAIResponse ExceedsDigitLimit)\<rparr>
                 | Some n \<Rightarrow>
                     s\<lparr>task_title := Some t, scheduled_date_str := Some d,
                       scheduled_time_str := Some ti,
                       duration_minutes := Some n,
                       parsed_priority :=
                         Some (case text_after ''Priority:'' out of
                                 Some p \<Rightarrow> p
                               | None \<Rightarrow> ''Normal'')\<rparr>)
            | _ \<Rightarrow> s\<lparr>error := Some (ParsingAIResponse EssentialDetailsMissing)\<rparr>)"
proof -
  let ?task = "re_search (label_text ''Task:'') out"
  let ?date = "re_search (label_text ''Date:'') out"
  let ?time = "re_search (label_text ''Time:'') out"
  let ?dur = "re_search (label_digits ''Duration:'') out"
  let ?prio = "re_search (label_text ''Priority:'') out"
  have t1: "text_after ''Task:'' out = map_option (\<lambda>m. strip (group1 m)) ?task"
    by (simp add: search_text)
  have t2: "text_after ''Date:'' out = map_option (\<lambda>m. strip (group1 m)) ?date"
    by (simp add: search_text)
  have t3: "text_after ''Time:'' out = map_option (\<lambda>m. strip (group1 m)) ?time"
    by (simp add: search_text)
  have t4: "text_after ''Priority:'' out = map_option (\<lambda>m. strip (group1 m)) ?prio"
    by (simp add: search_text)
  have d: "digits_after ''Duration:'' out = map_option group1 ?dur"
    by (simp add: search_digits)
  have dur: "(case digits_after ''Duration:'' out of Some ds \<Rightarrow> py_int ds | None \<Rightarrow> Some 60) =
             (case ?dur of Some m \<Rightarrow> py_int (group1 m) | None \<Rightarrow> Some 60)"
    unfolding d by (cases ?dur) simp_all
  have prio: "(case text_after ''Priority:'' out of Some p \<Rightarrow> p | None \<Rightarrow> ''Normal'') =
              (case ?prio of Some m \<Rightarrow> strip (group1 m) | None \<Rightarrow> ''Normal'')"
    unfolding t4 by (cases ?prio) simp_all
  have unfold: "parse_ai_response s =
      (case (?task, ?date, ?time) of
         (Some t, Some d, Some ti) \<Rightarrow>
           (case (case ?dur of Some m \<Rightarrow> py_int (group1 m) | None \<Rightarrow> Some 60) of
              None \<Rightarrow>
                s\<lparr>task_title := Some (strip (group1 t)),
                  scheduled_date_str := Some (strip (group1 d)),
                  scheduled_time_str := Some (strip (group1 ti)),
                  error := Some (ParsingAIResponse ExceedsDigitLimit)\<rparr>
            | Some n \<Rightarrow>
                s\<lparr>task_title := Some (strip (group1 t)),
                  scheduled_date_str := Some (strip (group1 d)),
                  scheduled_time_str := Some (strip (group1 ti)),
                  duration_minutes := Some n,
                  parsed_priority :=
                    Some (case ?prio of Some m \<Rightarrow> strip (group1 m) | None \<Rightarrow> ''Normal'')\<rparr>)
       | _ \<Rightarrow> s\<lparr>error := Some (ParsingAIResponse EssentialDetailsMissing)\<rparr>)"
    using assms unfolding parse_ai_response_def Let_def by simp
  show ?thesis
    unfolding unfold dur prio t1 t2 t3
    by (cases ?task; cases ?date; cases ?time) simp_all
qed

lemma digits_after_digits:
  "digits_after l out = Some ds \<Longrightarrow> ds \<noteq> [] \<and> (\<forall>c \<in> set ds. isdigit c)"
proof (induction out)
  case Nil
  then show ?case by simp
next
  case (Cons c cs)
  show ?case
  proof (cases "take (length l) (c # cs) = l \<and>
                takeWhile isdigit (dropWhile isspace (drop (length l) (c # cs))) \<noteq> []")
    case True
    with Cons.prems
    have "ds = takeWhile isdigit (dropWhile isspace (drop (length l) (c # cs)))"
      by (simp del: take.simps drop.simps)
    with True show ?thesis by (auto dest: set_takeWhileD simp del: take.simps drop.simps)
  next
    case False
    with Cons.prems have "digits_after l cs = Some ds"
      by (auto simp del: take.simps drop.simps)
    then show ?thesis by (rule Cons.IH)
  qed
qed

lemma strip_digits:
  assumes "\<forall>c \<in> set ds. isdigit c"
  shows "strip ds = ds"
proof (cases "ds = []")
  case True
  then show ?thesis by (simp add: strip_def)
next
  case False
  then have "hd ds \<in> set ds" and "last ds \<in> set ds" by simp_all
  with assms have h: "\<not> isspace (hd ds)" and l: "\<not> isspace (last ds)"
    using space_not_digit by blast+
  from h have a: "dropWhile isspace ds = ds" by (simp add: dropWhile_eq_self_iff)
  from l False have "dropWhile isspace (rev ds) = rev ds"
    by (simp add: dropWhile_eq_self_iff hd_rev)
  with a show ?thesis by (simp add: strip_def)
qed

lemma py_int_digits:
  assumes "\<forall>c \<in> set ds. isdigit c"
  shows "(py_int ds = None) = (4300 < length ds)"
  using strip_digits [OF assms] by (simp add: py_int_def int_max_str_digits_def)

text \<open>
  A reply whose three labels have text and whose duration has 4301 digits: the three fields
  are written, \<^verbatim>\<open>int\<close> raises, the error is recorded, and the duration and the priority
  keep the values of the initial state.
\<close>

lemma long_duration_fields:
  assumes "ds \<noteq> []" and "\<forall>c \<in> set ds. isdigit c"
  shows "text_after ''Task:'' (long_duration_reply ds) = Some ''Sync''"
    and "text_after ''Date:'' (long_duration_reply ds) = Some ''Friday, 28 May 2027''"
    and "text_after ''Time:'' (long_duration_reply ds) = Some ''3:00 PM - 3:30 PM''"
    and "digits_after ''Duration:'' (long_duration_reply ds) = Some ds"
proof -
  show "text_after ''Task:'' (long_duration_reply ds) = Some ''Sync''"
    by (simp add: long_duration_reply_def only_newlines_def dot_def isspace_def strip_def)
  show "text_after ''Date:'' (long_duration_reply ds) = Some ''Friday, 28 May 2027''"
    by (simp add: long_duration_reply_def only_newlines_def dot_def isspace_def strip_def)
  show "text_after ''Time:'' (long_duration_reply ds) = Some ''3:00 PM - 3:30 PM''"
    by (simp add: long_duration_reply_def only_newlines_def dot_def isspace_def strip_def)
  from assms have "hd ds \<in> set ds" by simp
  with assms have "\<not> isspace (hd ds)" using space_not_digit by blast
  with assms have d: "dropWhile isspace ds = ds" by (simp add: dropWhile_eq_self_iff)
  from assms have t: "takeWhile isdigit ds = ds" by (simp add: takeWhile_eq_all_conv)
  have sp: "isspace (CHR '' '')" by (simp add: isspace_def)
  show "digits_after ''Duration:'' (long_duration_reply ds) = Some ds"
    using assms(1) by (simp add: long_duration_reply_def d t sp)
qed

lemma long_duration_rejected:
  "error (parse_ai_response long_duration_state) = Some (ParsingAIResponse ExceedsDigitLimit) \<and>
   task_title (parse_ai_response long_duration_state) = Some ''Sync'' \<and>
   duration_minutes (parse_ai_response long_duration_state) = Some 60 \<and>
   parsed_priority (parse_ai_response long_duration_state) = None"
proof -
  let ?ds = "replicate 4301 (CHR ''1'')"
  have ne: "?ds \<noteq> []" by simp
  have dg: "\<forall>c \<in> set ?ds. isdigit c" by (simp add: isdigit_def)
  note f = long_duration_fields [OF ne dg]
  have "(py_int ?ds = None) = (4300 < length ?ds)" using dg by (rule py_int_digits)
  then have p: "py_int ?ds = None" by simp
  have e: "error long_duration_state = None"
    by (simp add: long_duration_state_def initial_state_def)
  have o: "output long_duration_state = Some (long_duration_reply ?ds)"
    by (simp add: long_duration_state_def)
  have n: "long_duration_reply ?ds \<noteq> []" by (simp add: long_duration_reply_def)
  have "parse_ai_response long_duration_state =
          long_duration_state\<lparr>task_title := Some ''Sync'',
            scheduled_date_str := Some ''Friday, 28 May 2027'',
            scheduled_time_str := Some ''3:00 PM - 3:30 PM'',
            error := Some (ParsingAIResponse ExceedsDigitLimit)\<rparr>"
    unfolding parse_ai_response_fields [OF e o n] f by (simp add: p)
  then show ?thesis by (simp add: long_duration_state_def initial_state_def)
qed

lemma run_parse_response_failed:
  assumes "error (parse_ai_response s) \<noteq> None"
  shows "run e parse_response s = (parse_ai_response s, [], [parse_response, error_handler])"
proof -
  have "run_node e parse_response s = (parse_ai_response s, [])" by (simp add: run_node_def)
  moreover have "next_node parse_response (parse_ai_response s) = Some error_handler"
    using assms by (simp add: next_node_error)
  ultimately show ?thesis
    by (simp add: run_error_handler del: run.simps add: run.simps [of e parse_response s])
qed

text \<open>
  C7, as stated, fails when a label stands at the very end of the reply: the three labels
  are present, but the search for \<^verbatim>\<open>Task:\<close> needs at least one character after the
  label, finds none and the parser rejects the reply.
\<close>

theorem trailing_label_rejected:
  "contains ''Task:'' trailing_label_reply \<and> contains ''Date:'' trailing_label_reply \<and>
   contains ''Time:'' trailing_label_reply \<and>
   error (parse_ai_response trailing_label_state) =
     Some (ParsingAIResponse EssentialDetailsMissing) \<and>
   task_title (parse_ai_response trailing_label_state) = None"
  by code_simp

text \<open>
  C7 (amended): when one of the labels \<^verbatim>\<open>Task:\<close>, \<^verbatim>\<open>Date:\<close>, \<^verbatim>\<open>Time:\<close> is absent
  from the reply, or is followed by nothing but line breaks, \<^verbatim>\<open>parse_ai_response\<close> records
  the parsing error (for an empty reply with the message of the missing output, otherwise
  with that of the missing details) and changes nothing else; the run then goes from
  \<^verbatim>\<open>parse_response\<close> to the error handler and ends, without the date/time stage and
  without a call to the model. When each of the three labels is followed by some text, the
  three fields are the text announced by each label: the white space after the label is
  skipped, line breaks included, and the rest of that line is trimmed. The reply is then
  accepted, unless the number after \<^verbatim>\<open>Duration:\<close> has more than 4300 digits: \<^verbatim>\<open>int\<close>
  refuses it, and the parser records that error after the three fields were written.
\<close>

theorem response_parser:
  assumes "error s = None" and "output s = Some out"
  shows "(\<not> contains ''Task:'' out \<or> \<not> contains ''Date:'' out \<or> \<not> contains ''Time:'' out \<longrightarrow>
            text_after ''Task:'' out = None \<or> text_after ''Date:'' out = None \<or>
            text_after ''Time:'' out = None) \<and>
         (text_after ''Task:'' out = None \<or> text_after ''Date:'' out = None \<or>
            text_after ''Time:'' out = None \<longrightarrow>
            parse_ai_response s =
              s\<lparr>error := Some (ParsingAIResponse
                                  (if out = [] then NoAIOutput else EssentialDetailsMissing))\<rparr> \<and>
            run e parse_response s =
              (parse_ai_response s, [], [parse_response, error_handler])) \<and>
         (text_after ''Task:'' out = Some t \<and> text_after ''Date:'' out = Some d \<and>
            text_after ''Time:'' out = Some ti \<longrightarrow>
            task_title (parse_ai_response s) = Some t \<and>
            scheduled_date_str (parse_ai_response s) = Some d \<and>
            scheduled_time_str (parse_ai_response s) = Some ti \<and>
            error (parse_ai_response s) =
              (case digits_after ''Duration:'' out of
                 None \<Rightarrow> None
               | Some ds \<Rightarrow>
                   if 4300 < length ds then Some (ParsingAIResponse ExceedsDigitLimit)
                   else None))"
proof -
  have a: "\<not> contains ''Task:'' out \<or> \<not> contains ''Date:'' out \<or> \<not> contains ''Time:'' out \<longrightarrow>
            text_after ''Task:'' out = None \<or> text_after ''Date:'' out = None \<or>
            text_after ''Time:'' out = None"
    using text_after_absent [of "''Task:''" out] text_after_absent [of "''Date:''" out]
      text_after_absent [of "''Time:''" out]
    by (auto simp del: contains.simps text_after.simps)
  have b: "parse_ai_response s =
              s\<lparr>error := Some (ParsingAIResponse
                                  (if out = [] then NoAIOutput else EssentialDetailsMissing))\<rparr> \<and>
            run e parse_response s =
              (parse_ai_response s, [], [parse_response, error_handler])"
    if n: "text_after ''Task:'' out = None \<or> text_after ''Date:'' out = None \<or>
           text_after ''Time:'' out = None"
  proof -
    have p: "parse_ai_response s =
              s\<lparr>error := Some (ParsingAIResponse
                                  (if out = [] then NoAIOutput else EssentialDetailsMissing))\<rparr>"
    proof (cases "out = []")
      case True
      with assms show ?thesis by (simp add: parse_ai_response_def)
    next
      case False
      with n parse_ai_response_fields [OF assms False] show ?thesis
        by (auto split: option.splits)
    qed
    then have "error (parse_ai_response s) \<noteq> None" by simp
    then have "run e parse_response s =
                 (parse_ai_response s, [], [parse_response, error_handler])"
      by (rule run_parse_response_failed)
    with p show ?thesis by blast
  qed
  have c: "task_title (parse_ai_response s) = Some t \<and>
            scheduled_date_str (parse_ai_response s) = Some d \<and>
            scheduled_time_str (parse_ai_response s) = Some ti \<and>
            error (parse_ai_response s) =
              (case digits_after ''Duration:'' out of
                 None \<Rightarrow> None
               | Some ds \<Rightarrow>
                   if 4300 < length ds then Some (ParsingAIResponse ExceedsDigitLimit)
                   else None)"
    if f: "text_after ''Task:'' out = Some t \<and> text_after ''Date:'' out = Some d \<and>
           text_after ''Time:'' out = Some ti"
  proof -
    from f have ne: "out \<noteq> []" by auto
    note p = parse_ai_response_fields [OF assms ne]
    show ?thesis
    proof (cases "digits_after ''Duration:'' out")
      case None
      with p f assms(1) show ?thesis by simp
    next
      case (Some ds)
      then have "\<forall>c \<in> set ds. isdigit c" using digits_after_digits by blast
      then have lim: "(py_int ds = None) = (4300 < length ds)" by (rule py_int_digits)
      show ?thesis
      proof (cases "py_int ds")
        case None
        with lim have "4300 < length ds" by simp
        with p f Some None show ?thesis by simp
      next
        case (Some n)
        with lim have "\<not> 4300 < length ds" by simp
        with p f \<open>digits_after ''Duration:'' out = Some ds\<close> Some assms(1) show ?thesis
          by simp
      qed
    qed
  qed
  from a b c show ?thesis by blast
qed

theorem response_parser_witness:
  "error no_time_state = None \<and>
   \<not> contains ''Time:'' (''Task: Sync'' @ [CHR 0x0A] @ ''Date: Friday, 28 May 2027'') \<and>
   parse_ai_response no_time_state =
     no_time_state\<lparr>error := Some (ParsingAIResponse EssentialDetailsMissing)\<rparr> \<and>
   run example_env parse_response no_time_state =
     (parse_ai_response no_time_state, [], [parse_response, error_handler]) \<and>
   error (parse_ai_response replied_state) = None \<and>
   task_title (parse_ai_response replied_state) = Some ''Sync'' \<and>
   scheduled_date_str (parse_ai_response replied_state) = Some ''Friday, 28 May 2027'' \<and>
   scheduled_time_str (parse_ai_response replied_state) = Some ''3:00 PM - 3:30 PM''"
proof -
  let ?out = "''Task: Sync'' @ [CHR 0x0A] @ ''Date: Friday, 28 May 2027''"
  have n1: "error no_time_state = None" by code_simp
  have n2: "output no_time_state = Some ?out" by (simp add: no_time_state_def)
  have n3: "\<not> contains ''Time:'' ?out" by code_simp
  have n4: "?out \<noteq> []" by simp
  have r1: "error replied_state = None" by code_simp
  have r2: "output replied_state = Some example_reply" by (simp add: replied_state_def)
  have r3: "text_after ''Task:'' example_reply = Some ''Sync'' \<and>
            text_after ''Date:'' example_reply = Some ''Friday, 28 May 2027'' \<and>
            text_after ''Time:'' example_reply = Some ''3:00 PM - 3:30 PM''"
    by code_simp
  from response_parser [OF n1 n2, of example_env] n3 n4
  have a: "parse_ai_response no_time_state =
             no_time_state\<lparr>error := Some (ParsingAIResponse EssentialDetailsMissing)\<rparr> \<and>
           run example_env parse_response no_time_state =
             (parse_ai_response no_time_state, [], [parse_response, error_handler])"
    by (simp del: run.simps contains.simps)
  have r4: "digits_after ''Duration:'' example_reply = Some ''30''" by code_simp
  from response_parser [OF r1 r2] r3
  have "task_title (parse_ai_response replied_state) = Some ''Sync'' \<and>
        scheduled_date_str (parse_ai_response replied_state) = Some ''Friday, 28 May 2027'' \<and>
        scheduled_time_str (parse_ai_response replied_state) = Some ''3:00 PM - 3:30 PM'' \<and>
        error (parse_ai_response replied_state) =
          (case digits_after ''Duration:'' example_reply of
             None \<Rightarrow> None
           | Some ds \<Rightarrow>
               if 4300 < length ds then Some (ParsingAIResponse ExceedsDigitLimit) else None)"
    by blast
  with r4
  have b: "error (parse_ai_response replied_state) = None \<and>
           task_title (parse_ai_response replied_state) = Some ''Sync'' \<and>
           scheduled_date_str (parse_ai_response replied_state) = Some ''Friday, 28 May 2027'' \<and>
           scheduled_time_str (parse_ai_response replied_state) = Some ''3:00 PM - 3:30 PM''"
    by simp
  from n1 n3 a b show ?thesis by blast
qed


text \<open>
  C8, as stated, fails when \<^verbatim>\<open>Priority:\<close> stands at the very end of the reply: the label
  is present, nothing follows it, and the parsed priority is the default instead of the
  (empty) text after the label.
\<close>

theorem empty_priority_defaults:
  "contains ''Priority:'' empty_priority_reply \<and>
   error (parse_ai_response empty_priority_state) = None \<and>
   parsed_priority (parse_ai_response empty_priority_state) = Some ''Normal''"
  by code_simp

text \<open>
  C8 (amended): for every reply that the parser accepts, the parsed duration is the number
  written by the first run of digits that follows a \<^verbatim>\<open>Duration:\<close> label after optional
  white space, and 60 when there is none (label absent, or not followed by a digit); the
  parsed priority is the text announced by the first \<^verbatim>\<open>Priority:\<close> label that is followed
  by something other than line breaks (white space after the label is skipped, line breaks
  included, and the rest of that line is trimmed), taken as it is without comparison with
  High, Normal and Low, and \<^verbatim>\<open>Normal\<close> when there is no such label.
\<close>

theorem duration_priority_defaults:
  assumes "error s = None" and "output s = Some out"
    and "error (parse_ai_response s) = None"
  shows "duration_minutes (parse_ai_response s) =
           (case digits_after ''Duration:'' out of
              Some ds \<Rightarrow> py_int ds
            | None \<Rightarrow> Some 60) \<and>
         duration_minutes (parse_ai_response s) \<noteq> None \<and>
         parsed_priority (parse_ai_response s) =
           Some (case text_after ''Priority:'' out of
                   Some p \<Rightarrow> p
                 | None \<Rightarrow> ''Normal'') \<and>
         (\<not> contains ''Duration:'' out \<longrightarrow> duration_minutes (parse_ai_response s) = Some 60) \<and>
         (\<not> contains ''Priority:'' out \<longrightarrow>
            parsed_priority (parse_ai_response s) = Some ''Normal'')"
proof -
  have ne: "out \<noteq> []"
  proof
    assume "out = []"
    with assms(1,2) have "error (parse_ai_response s) \<noteq> None"
      by (simp add: parse_ai_response_def)
    with assms(3) show False by simp
  qed
  note f = parse_ai_response_fields [OF assms(1,2) ne]
  from assms(3) f obtain t d ti where
    "text_after ''Task:'' out = Some t" "text_after ''Date:'' out = Some d"
    "text_after ''Time:'' out = Some ti"
    by (cases "text_after ''Task:'' out"; cases "text_after ''Date:'' out";
        cases "text_after ''Time:'' out") auto
  with f assms(3) have a: "duration_minutes (parse_ai_response s) =
           (case digits_after ''Duration:'' out of Some ds \<Rightarrow> py_int ds | None \<Rightarrow> Some 60)"
    and a': "duration_minutes (parse_ai_response s) \<noteq> None"
    and b: "parsed_priority (parse_ai_response s) =
           Some (case text_after ''Priority:'' out of Some p \<Rightarrow> p | None \<Rightarrow> ''Normal'')"
    by (cases "case digits_after ''Duration:'' out of Some ds \<Rightarrow> py_int ds | None \<Rightarrow> Some 60";
        simp)+
  have c: "\<not> contains ''Duration:'' out \<longrightarrow> duration_minutes (parse_ai_response s) = Some 60"
    using a digits_after_absent [of "''Duration:''" out]
    by (auto simp del: contains.simps digits_after.simps)
  have d: "\<not> contains ''Priority:'' out \<longrightarrow>
            parsed_priority (parse_ai_response s) = Some ''Normal''"
    using b text_after_absent [of "''Priority:''" out]
    by (auto simp del: contains.simps text_after.simps)
  from a a' b c d show ?thesis by blast
qed

theorem duration_priority_defaults_witness:
  "error (parse_ai_response replied_state) = None \<and>
   duration_minutes (parse_ai_response replied_state) = Some 30 \<and>
   parsed_priority (parse_ai_response replied_state) = Some ''Normal'' \<and>
   error (parse_ai_response urgent_state) = None \<and>
   duration_minutes (parse_ai_response urgent_state) = Some 60 \<and>
   parsed_priority (parse_ai_response urgent_state) = Some ''Urgent''"
proof -
  have r1: "error replied_state = None" by code_simp
  have r2: "output replied_state = Some example_reply" by (simp add: replied_state_def)
  have r3: "error (parse_ai_response replied_state) = None" by code_simp
  have r4: "digits_after ''Duration:'' example_reply = Some ''30''" by code_simp
  have r5: "\<not> contains ''Priority:'' example_reply" by code_simp
  have r6: "py_int ''30'' = Some 30" by code_simp
  have u1: "error urgent_state = None" by code_simp
  have u2: "output urgent_state = Some urgent_reply" by (simp add: urgent_state_def)
  have u3: "error (parse_ai_response urgent_state) = None" by code_simp
  have u4: "digits_after ''Duration:'' urgent_reply = None" by code_simp
  have u5: "text_after ''Priority:'' urgent_reply = Some ''Urgent''" by code_simp
  note t = duration_priority_defaults [OF r1 r2 r3]
  from t r5 have a2: "parsed_priority (parse_ai_response replied_state) = Some ''Normal''"
    by blast
  from t have "duration_minutes (parse_ai_response replied_state) =
      (case digits_after ''Duration:'' example_reply of Some ds \<Rightarrow> py_int ds | None \<Rightarrow> Some 60)"
    by blast
  with r4 r6 a2
  have a: "duration_minutes (parse_ai_response replied_state) = Some 30 \<and>
           parsed_priority (parse_ai_response replied_state) = Some ''Normal''"
    by simp
  note u = duration_priority_defaults [OF u1 u2 u3]
  from u have "duration_minutes (parse_ai_response urgent_state) =
      (case digits_after ''Duration:'' urgent_reply of Some ds \<Rightarrow> py_int ds | None \<Rightarrow> Some 60)"
    and "parsed_priority (parse_ai_response urgent_state) =
      Some (case text_after ''Priority:'' urgent_reply of Some p \<Rightarrow> p | None \<Rightarrow> ''Normal'')"
    by blast+
  with u4 u5
  have b: "duration_minutes (parse_ai_response urgent_state) = Some 60 \<and>
           parsed_priority (parse_ai_response urgent_state) = Some ''Urgent''"
    by simp
  from r3 u3 a b show ?thesis by blast
qed


text \<open>
  A priority line left blank is not read as empty: the search runs on to the next line that
  has text.
\<close>

lemma blank_priority_takes_next_line:
  "error (parse_ai_response blank_priority_state) = None \<and>
   parsed_priority (parse_ai_response blank_priority_state) = Some ''Scheduled Slot:''"
  by code_simp

section \<open>Where the single-script variant differs\<close>

text \<open>
  C1 fails in the single-script variant: a reply that names yesterday, with a start before
  the clock reading, is not refused; the script moves the slot to the clock reading plus five
  minutes, on today's date, and goes on to schedule it. The state-machine pipeline, run on
  the same reply with the same clock, records the past-date error and stores no start.
\<close>

theorem lc_moves_a_past_day:
  "lc_resolve example_env yesterday_reply =
     Inr \<lparr>lc_task_title = ''Sync'',
          lc_start_dt = \<lparr>naive = \<lparr>year = 2027, month = 5, day = 20, hour = 4, minute = 5,
                                    second = 7, microsecond = 12\<rparr>, utcoffset = 0\<rparr>,
          lc_end_dt = \<lparr>naive = \<lparr>year = 2027, month = 5, day = 20, hour = 4, minute = 35,
                                  second = 7, microsecond = 12\<rparr>, utcoffset = 0\<rparr>\<rparr> \<and>
   error (fst (invoke (replying_env yesterday_reply) ''Sync'')) =
     Some (DateTimeParsing (PastDate \<lparr>year = 2027, month = 5, day = 19, hour = 8, minute = 0,
                                      second = 0, microsecond = 0\<rparr>)) \<and>
   start_dt (fst (invoke (replying_env yesterday_reply) ''Sync'')) = None"
  by code_simp

text \<open>
  C4 fails in the single-script variant: it tries the two weekday formats only, so the date
  \<^verbatim>\<open>28 May 2027\<close>, which the third format of the list reads, stops the script with its
  one parsing message. The state-machine pipeline resolves the same reply.
\<close>

theorem lc_two_formats_only:
  "lc_parse_date example_now ''28 May 2027'' = None \<and>
   lc_resolve example_env plain_date_reply = Inl LcParsingError \<and>
   parse_flexible_date example_now ''28 May 2027'' =
     Some \<lparr>year = 2027, month = 5, day = 28, hour = 0, minute = 0, second = 0, microsecond = 0\<rparr> \<and>
   error (fst (invoke (replying_env plain_date_reply) ''Sync'')) = None \<and>
   start_dt (fst (invoke (replying_env plain_date_reply) ''Sync'')) =
     Some \<lparr>naive = \<lparr>year = 2027, month = 5, day = 28, hour = 9, minute = 30, second = 0,
                      microsecond = 0\<rparr>, utcoffset = 0\<rparr>"
  by code_simp

text \<open>
  C5 fails in the single-script variant: the yearless date is compared with the clock
  reading as a datetime, and midnight of today is before the clock reading, so a yearless
  date equal to today's is moved to the next year and the slot is scheduled a year late. The
  state-machine pipeline compares the dates and keeps the current year.
\<close>

theorem lc_today_moves_a_year:
  "lc_parse_date example_now ''Thursday, 20 May'' =
     Some \<lparr>year = 2028, month = 5, day = 20, hour = 0, minute = 0, second = 0, microsecond = 0\<rparr> \<and>
   lc_resolve example_env today_reply =
     Inr \<lparr>lc_task_title = ''Sync'',
          lc_start_dt = \<lparr>naive = \<lparr>year = 2028, month = 5, day = 20, hour = 9, minute = 30,
                                    second = 0, microsecond = 0\<rparr>, utcoffset = 0\<rparr>,
          lc_end_dt = \<lparr>naive = \<lparr>year = 2028, month = 5, day = 20, hour = 10, minute = 0,
                                  second = 0, microsecond = 0\<rparr>, utcoffset = 0\<rparr>\<rparr> \<and>
   parse_flexible_date example_now ''Thursday, 20 May'' =
     Some \<lparr>year = 2027, month = 5, day = 20, hour = 0, minute = 0, second = 0, microsecond = 0\<rparr> \<and>
   start_dt (fst (invoke (replying_env today_reply) ''Sync'')) =
     Some \<lparr>naive = \<lparr>year = 2027, month = 5, day = 20, hour = 9, minute = 30, second = 0,
                      microsecond = 0\<rparr>, utcoffset = 0\<rparr>"
  by code_simp

text \<open>
  The script unpacks the split range without a test for \<^verbatim>\<open>" - "\<close>: a range without a
  hyphen and a range with two hyphens both fail in the unpacking, with the script's one
  message.
\<close>

lemma lc_no_hyphen: "lc_resolve example_env no_hyphen_reply = Inl LcParsingError"
  by code_simp

lemma lc_three_parts:
  "lc_resolve example_env
     (''Task: Sync'' @ [CHR 0x0A] @ ''Date: Friday, 28 May 2027'' @ [CHR 0x0A] @
      ''Time: 3:00 PM - 4:00 PM - 5:00 PM'') = Inl LcParsingError"
  by code_simp

text \<open>The event has the same summary, instants, zone name and reminders.\<close>

lemma lc_event_payload:
  "ev_summary (lc_event req out slot) = Some (lc_task_title slot) \<and>
   ev_start (lc_event req out slot) =
     \<lparr>dateTime = isoformat (lc_start_dt slot), timeZone = ''Asia/Kolkata''\<rparr> \<and>
   ev_end (lc_event req out slot) =
     \<lparr>dateTime = isoformat (lc_end_dt slot), timeZone = ''Asia/Kolkata''\<rparr> \<and>
   contains req (ev_description (lc_event req out slot)) \<and>
   contains out (ev_description (lc_event req out slot)) \<and>
   ev_reminders (lc_event req out slot) =
     \<lparr>useDefault = False,
      overrides = [\<lparr>method_name = ''email'', minutes = 1440\<rparr>,
                   \<lparr>method_name = ''popup'', minutes = 10\<rparr>]\<rparr>"
proof -
  let ?d = "ev_description (lc_event req out slot)"
  have "?d = (''Scheduled via AI Scheduler.'' @ [CHR 0x0A, CHR 0x0A] @ ''Request: '' @
              [CHR 0x22]) @ req @ ([CHR 0x22, CHR 0x0A] @ ''Output:'' @ [CHR 0x0A] @ out)"
    by (simp add: lc_event_def)
  then have c1: "contains req ?d" by (simp only: contains_append)
  have "?d = (''Scheduled via AI Scheduler.'' @ [CHR 0x0A, CHR 0x0A] @ ''Request: '' @
              [CHR 0x22] @ req @ [CHR 0x22, CHR 0x0A] @ ''Output:'' @ [CHR 0x0A]) @ out @ []"
    by (simp add: lc_event_def)
  then have c2: "contains out ?d" by (simp only: contains_append)
  from c1 c2 show ?thesis by (simp add: lc_event_def reminder_policy_def)
qed

end
